theory Spec2Isabelle
  imports Complex_Main "HOL-Library.Log_Nat"
begin

section \<open>The interview chat route (backend/src/routes/interview.ts)\<close>

text \<open>
  The route keeps one transcript per session id in a process-wide map, sends the
  transcript to a chat-completion provider, parses the reply and answers with a
  presentation payload that carries a fabricated lip-sync track.

  Conventions of the embedding.
  \<^item> A \<open>string\<close> is a JavaScript string whose code units are below 256; one \<open>char\<close>
    is one code unit, so \<open>length\<close> is the source's \<open>.length\<close>.
  \<^item> A Number is an IEEE 754 double, kept as the real number it stands for. Every
    arithmetic operation of the lip-sync generator returns the double nearest to the
    exact result, a tie going to the even significand. No value of the generator
    comes near \<open>2 ^ 1024\<close>, where a double overflows, so infinities are left out.
  \<^item> A string of the runtime has fewer than \<open>2 ^ 32\<close> code units (the engines stop
    well below: V8 near \<open>2 ^ 29\<close>); the type \<open>string\<close> has no such bound, so a
    property that needs it says so.
  \<^item> \<open>Math.random\<close> is a sequence of draws \<open>nat \<Rightarrow> real\<close> read in call order.
  \<^item> What the runtime and the network supply is an input of the handler: the
    provider's answer to \<open>fetch\<close>, and \<open>JSON.parse\<close> as a partial function from the
    text to the parsed value (\<open>None\<close> where it throws).
  \<^item> Values typed by the source's TypeScript annotations have that type here: the
    request body is \<open>{message?: string, sessionId?: string}\<close>, and a completion is
    \<open>{choices: [{message: {content}}], model}\<close>.
  \<^item> A request is handled from start to end before the next one starts; the
    interleaving of two requests at the \<open>await\<close> of \<open>fetch\<close> is outside the model.
\<close>

subsection \<open>Constants\<close>

definition DEFAULT_MODEL :: string where
  "DEFAULT_MODEL = ''llama-3.3-70b-versatile''"

definition newline :: string where
  "newline = [CHR 0x0A]"

definition INTERVIEWER_SYSTEM_PROMPT :: string where
  \<open>INTERVIEWER_SYSTEM_PROMPT =
     ''You are an expert technical interviewer named "Optimus" for a learning platform. Your role is to conduct mock interviews to help students practice.'' @ newline
   @ newline
   @ ''RULES:'' @ newline
   @ ''1. Be professional but friendly and encouraging'' @ newline
   @ ''2. Ask one question at a time'' @ newline
   @ ''3. After the student answers, provide brief constructive feedback then ask a follow-up or new question'' @ newline
   @ ''4. Cover topics relevant to software development: algorithms, system design, behavioral, coding concepts'' @ newline
   @ ''5. Adapt difficulty based on the student's responses'' @ newline
   @ ''6. If the student says "hello" or greets you, introduce yourself and ask what type of interview they'd like (technical, behavioral, or general)'' @ newline
   @ ''7. Keep responses concise (2-3 sentences max for feedback, then the question)'' @ newline
   @ newline
   @ ''RESPONSE FORMAT:'' @ newline
   @ ''You must respond with ONLY valid JSON in this exact format, no markdown, no code blocks:'' @ newline
   @ ''{"text": "your response text here", "facialExpression": "smile", "animation": "Talking_1"}'' @ newline
   @ newline
   @ ''Available facialExpressions: "smile", "default", "funnyFace", "sad"'' @ newline
   @ ''Available animations: "Talking_0", "Talking_1", "Talking_2", "Idle"'' @ newline
   @ newline
   @ ''Use "smile" for encouragement, "default" for questions, "sad" for when the student struggles.''\<close>

subsection \<open>Double arithmetic\<close>

text \<open>
  \<open>binade x\<close> is the exponent \<open>e\<close> with \<open>2 ^ e \<le> |x| < 2 ^ (e + 1)\<close>, for \<open>x\<close> other than
  zero, computed from the bit length of an integer.
\<close>

definition binade :: "real \<Rightarrow> int" where
  "binade x =
     (if 1 \<le> \<bar>x\<bar> then bitlen \<lfloor>\<bar>x\<bar>\<rfloor> - 1 else - bitlen (\<lceil>1 / \<bar>x\<bar>\<rceil> - 1))"

text \<open>The nearest integer, a tie going to the even one.\<close>

definition round_ties_even :: "real \<Rightarrow> int" where
  "round_ties_even y =
     (let f = \<lfloor>y\<rfloor>
      in if y - of_int f < 1 / 2 then f
         else if 1 / 2 < y - of_int f then f + 1
         else if even f then f else f + 1)"

text \<open>
  The double nearest to a real: a multiple of the unit in the last of the 53 bits of
  the significand; below \<open>2 ^ -1022\<close> (subnormal doubles) the unit stays \<open>2 ^ -1074\<close>.
\<close>

definition double :: "real \<Rightarrow> real" where
  "double x =
     (if x = 0 then 0
      else let u = 2 powi (max (binade x) (- 1022) - 52)
           in of_int (round_ties_even (x / u)) * u)"

text \<open>The operators \<open>+\<close>, \<open>*\<close> and \<open>/\<close> on Numbers.\<close>

definition Number_add :: "real \<Rightarrow> real \<Rightarrow> real" where
  "Number_add a b = double (a + b)"

definition Number_mul :: "real \<Rightarrow> real \<Rightarrow> real" where
  "Number_mul a b = double (a * b)"

definition Number_div :: "real \<Rightarrow> real \<Rightarrow> real" where
  "Number_div a b = double (a / b)"

subsection \<open>generateLipSync\<close>

record mouth_cue =
  cue_start :: real
  cue_end :: real
  cue_value :: "string option"

definition visemes :: "string list" where
  "visemes = [''A'', ''B'', ''C'', ''D'', ''E'', ''F'', ''G'', ''H'', ''X'']"

text \<open>\<open>Math.round\<close>: the nearest integer, a tie going up. The result is exact: it is a
  double whenever the argument is.\<close>

definition Math_round :: "real \<Rightarrow> real" where
  "Math_round x = of_int \<lfloor>x + 1 / 2\<rfloor>"

text \<open>\<open>visemes[Math.floor(r * visemes.length)]\<close>; an index outside the array reads
  \<open>undefined\<close>, which is \<open>None\<close>.\<close>

definition pick_viseme :: "real \<Rightarrow> string option" where
  "pick_viseme r =
     (let i = \<lfloor>Number_mul r (of_nat (length visemes))\<rfloor>
      in if 0 \<le> i \<and> nat i < length visemes then Some (visemes ! nat i) else None)"

text \<open>\<open>text.split(" ")\<close>: the pieces between single spaces; the empty text has the one
  piece \<open>""\<close>, and a text that ends with a space has an empty last piece.\<close>

fun split_space :: "string \<Rightarrow> string list" where
  "split_space [] = [] # []"
| "split_space (c # cs) =
     (if c = CHR '' '' then [] # split_space cs
      else (case split_space cs of
              [] \<Rightarrow> (c # []) # []
            | w # ws \<Rightarrow> (c # w) # ws))"

text \<open>
  The inner loop \<open>for (let i = 0; i < word.length; i++)\<close>, by the number of rounds
  left. The state is the clock \<open>currentTime\<close> and the index \<open>k\<close> of the next draw; a
  round reads the draw of the duration, then the draw of the viseme. The result is
  the cues pushed, in push order, with the state after the loop. The literals
  \<open>0.08\<close>, \<open>0.04\<close> and \<open>0.1\<close> are the doubles nearest to them; \<open>100\<close> is a double.
\<close>

fun word_cues :: "(nat \<Rightarrow> real) \<Rightarrow> nat \<Rightarrow> nat \<Rightarrow> real \<Rightarrow> mouth_cue list \<times> nat \<times> real" where
  "word_cues random 0 k currentTime = ([], k, currentTime)"
| "word_cues random (Suc n) k currentTime =
     (let duration = Number_add (double 0.08) (Number_mul (random k) (double 0.04));
          cue = \<lparr>cue_start = Number_div (Math_round (Number_mul currentTime 100)) 100,
                 cue_end = Number_div (Math_round (Number_mul (Number_add currentTime duration) 100)) 100,
                 cue_value = pick_viseme (random (k + 1))\<rparr>;
          (cues, k', t') = word_cues random n (k + 2) (Number_add currentTime duration)
      in (cue # cues, k', t'))"

text \<open>The outer loop \<open>for (const word of words)\<close>, with the pause after each word.\<close>

fun words_cues :: "(nat \<Rightarrow> real) \<Rightarrow> string list \<Rightarrow> nat \<Rightarrow> real \<Rightarrow> mouth_cue list" where
  "words_cues random [] k currentTime = []"
| "words_cues random (word # words) k currentTime =
     (let (cues, k', t') = word_cues random (length word) k currentTime
      in cues @ words_cues random words k' (Number_add t' (double 0.1)))"

text \<open>The value returned: \<open>{ mouthCues: cues }\<close>.\<close>

record lipsync_track =
  mouthCues :: "mouth_cue list"

definition generateLipSync :: "(nat \<Rightarrow> real) \<Rightarrow> string \<Rightarrow> lipsync_track" where
  "generateLipSync random txt = \<lparr>mouthCues = words_cues random (split_space txt) 0 0\<rparr>"

subsection \<open>Values of the runtime\<close>

text \<open>
  A value read by \<open>JSON.parse\<close>. A number is finite, or an infinity when the literal
  overflows. An object is the list of its own properties, each key once.
\<close>

datatype number = Finite real | Infinity | Minus_Infinity

datatype json =
    JNull
  | JBool bool
  | JNum number
  | JStr string
  | JArr "json list"
  | JObj "(string \<times> json) list"

text \<open>Truthiness of a value that may be \<open>undefined\<close> (\<open>None\<close>), as \<open>||\<close> tests it.\<close>

fun truthy :: "json option \<Rightarrow> bool" where
  "truthy None = False"
| "truthy (Some JNull) = False"
| "truthy (Some (JBool b)) = b"
| "truthy (Some (JNum n)) = (n \<noteq> Finite 0)"
| "truthy (Some (JStr s)) = (s \<noteq> [])"
| "truthy (Some (JArr xs)) = True"
| "truthy (Some (JObj kvs)) = True"

text \<open>\<open>v || d\<close> for a value and a string default.\<close>

fun or_default :: "json option \<Rightarrow> string \<Rightarrow> json" where
  "or_default None d = JStr d"
| "or_default (Some v) d = (if truthy (Some v) then v else JStr d)"

text \<open>\<open>s || d\<close> for a string that may be \<open>undefined\<close>: the empty string is falsy.\<close>

fun or_else :: "string option \<Rightarrow> string \<Rightarrow> string" where
  "or_else None d = d"
| "or_else (Some s) d = (if s = [] then d else s)"

text \<open>
  \<open>String.prototype.trim\<close> on code units below 256: it strips tab, line feed,
  vertical tab, form feed, carriage return, space and no-break space from both ends.
\<close>

definition is_whitespace :: "char \<Rightarrow> bool" where
  "is_whitespace c =
     (c = CHR 0x09 \<or> c = CHR 0x0A \<or> c = CHR 0x0B \<or> c = CHR 0x0C \<or> c = CHR 0x0D
      \<or> c = CHR 0x20 \<or> c = CHR 0xA0)"

definition trim :: "string \<Rightarrow> string" where
  "trim s = rev (dropWhile is_whitespace (rev (dropWhile is_whitespace s)))"

text \<open>What a \<open>throw\<close> inside the handler's \<open>try\<close> carries to its \<open>catch\<close>.\<close>

datatype thrown =
    Fetch_rejected          \<comment> \<open>\<open>fetch\<close> rejects: no response\<close>
  | Groq_API_error nat      \<comment> \<open>\<open>new Error(`Groq API error: ${response.status}`)\<close>\<close>
  | Body_stream_error       \<comment> \<open>reading the response body rejects\<close>
  | Syntax_error            \<comment> \<open>\<open>response.json()\<close> on a body that is not JSON\<close>
  | Type_error              \<comment> \<open>a property read of \<open>undefined\<close> or \<open>null\<close>, or a call of a non-function\<close>

subsection \<open>Requests, provider traffic and replies\<close>

datatype role = User | Assistant | System

record turn =
  role :: role
  content :: string

type_synonym registry = "string \<rightharpoonup> turn list"

record env =
  GROQ_API_KEY :: "string option"
  INTERVIEW_MODEL :: "string option"

record body =
  message :: "string option"
  sessionId :: "string option"

text \<open>\<open>json_body\<close> is \<open>None\<close> when \<open>c.req.json()\<close> rejects; the handler then reads \<open>{}\<close>.\<close>

record chat_request =
  json_body :: "body option"
  query_model :: "string option"

text \<open>The request the handler sends with \<open>fetch\<close>.\<close>

record provider_request =
  authorization :: string
  sent_model :: string
  sent_messages :: "turn list"
  temperature :: real
  max_tokens :: nat
  response_format :: string

text \<open>
  The body of the provider's response. A completion lists, for each choice, its
  \<open>message?.content\<close> (\<open>None\<close> when the message or the content is missing), and names
  the model.
\<close>

datatype payload =
    Unreadable                               \<comment> \<open>reading the body rejects\<close>
  | Not_JSON                                 \<comment> \<open>the body is not JSON\<close>
  | No_choices                               \<comment> \<open>JSON without \<open>choices\<close>: \<open>data.choices[0]\<close> throws\<close>
  | Completion "string option list" string

record provider_response =
  http_status :: nat
  payload :: payload

datatype fetch_outcome = Rejected | Responded provider_response

text \<open>\<open>response.ok\<close>: the status is in the range 200 to 299.\<close>

definition ok :: "provider_response \<Rightarrow> bool" where
  "ok r = (200 \<le> http_status r \<and> http_status r \<le> 299)"

record presentation =
  msg_text :: string
  audio :: string
  lipsync :: lipsync_track
  facialExpression :: json
  animation :: json

text \<open>The JSON answer of the route with its HTTP status; \<open>error\<close> is \<open>String(error)\<close> of
  what was thrown.\<close>

record response =
  status :: nat
  messages :: "presentation list"
  model_used :: "string option"
  error :: "thrown option"

text \<open>What one call of the handler does: the registry after it, its answer, and the
  requests it sent to the provider, in order.\<close>

record chat_result =
  store :: registry
  reply :: response
  calls :: "provider_request list"

subsection \<open>POST /chat\<close>

definition system_turn :: turn where
  "system_turn = \<lparr>role = System, content = INTERVIEWER_SYSTEM_PROMPT\<rparr>"

definition greeting :: string where
  \<open>greeting = ''Hi, I'd like to start a mock interview session.''\<close>

text \<open>The answer when no API key is configured (status 200 by default).\<close>

definition not_configured :: "(nat \<Rightarrow> real) \<Rightarrow> response" where
  "not_configured random =
     \<lparr>status = 200,
      messages = [\<lparr>msg_text = ''AI interview is not configured. Please add GROQ_API_KEY to your environment variables.'',
                   audio = [],
                   lipsync = generateLipSync random ''AI interview is not configured.'',
                   facialExpression = JStr ''sad'',
                   animation = JStr ''Idle''\<rparr>],
      model_used = None,
      error = None\<rparr>"

text \<open>The answer of the \<open>catch\<close> block.\<close>

definition trouble :: "thrown \<Rightarrow> (nat \<Rightarrow> real) \<Rightarrow> response" where
  \<open>trouble e random =
     \<lparr>status = 500,
      messages = [\<lparr>msg_text = ''I'm having trouble connecting right now. Please try again in a moment.'',
                   audio = [],
                   lipsync = generateLipSync random ''I'm having trouble connecting.'',
                   facialExpression = JStr ''sad'',
                   animation = JStr ''Idle''\<rparr>],
      model_used = None,
      error = Some e\<rparr>\<close>

text \<open>Lines 118 to 123: get or create the transcript of the session.\<close>

definition get_or_create :: "registry \<Rightarrow> string \<Rightarrow> registry" where
  "get_or_create reg sid = (if reg sid = None then reg(sid \<mapsto> [system_turn]) else reg)"

definition history_of :: "registry \<Rightarrow> string \<Rightarrow> turn list" where
  "history_of reg sid = (case reg sid of None \<Rightarrow> [] | Some h \<Rightarrow> h)"

text \<open>Lines 126 to 134: the content of the user turn.\<close>

definition user_content :: "string option \<Rightarrow> string" where
  "user_content userMessage =
     (case userMessage of
        None \<Rightarrow> greeting
      | Some m \<Rightarrow> if m \<noteq> [] \<and> trim m \<noteq> [] then m else greeting)"

text \<open>Lines 137 to 139: query parameter, then environment, then default.\<close>

definition select_model :: "string option \<Rightarrow> string option \<Rightarrow> string" where
  "select_model queryModel envModel = or_else queryModel (or_else envModel DEFAULT_MODEL)"

text \<open>Lines 142 to 171: the provider's answer, read up to \<open>data\<close>, or what is thrown.\<close>

definition read_completion :: "fetch_outcome \<Rightarrow> thrown + (string option list \<times> string)" where
  "read_completion outcome =
     (case outcome of
        Rejected \<Rightarrow> Inl Fetch_rejected
      | Responded r \<Rightarrow>
          if \<not> ok r then
            (case payload r of
               Unreadable \<Rightarrow> Inl Body_stream_error
             | _ \<Rightarrow> Inl (Groq_API_error (http_status r)))
          else
            (case payload r of
               Unreadable \<Rightarrow> Inl Body_stream_error
             | Not_JSON \<Rightarrow> Inl Syntax_error
             | No_choices \<Rightarrow> Inl Type_error
             | Completion choices m \<Rightarrow> Inr (choices, m)))"

text \<open>Line 173: \<open>data.choices[0]?.message?.content || ""\<close>.\<close>

definition first_content :: "string option list \<Rightarrow> string" where
  "first_content choices = (case choices of [] \<Rightarrow> [] | c # _ \<Rightarrow> or_else c [])"

text \<open>Lines 181 to 190: the parsed reply, or the raw text wrapped.\<close>

definition wrapped :: "string \<Rightarrow> json" where
  "wrapped aiContent =
     JObj [(''text'', JStr aiContent),
           (''facialExpression'', JStr ''default''),
           (''animation'', JStr ''Talking_1'')]"

definition parse_reply :: "(string \<rightharpoonup> json) \<Rightarrow> string \<Rightarrow> json" where
  "parse_reply JSON_parse aiContent =
     (case JSON_parse aiContent of Some v \<Rightarrow> v | None \<Rightarrow> wrapped aiContent)"

text \<open>Lines 196 to 202: \<open>[history[0], ...history.slice(-20)]\<close> when the length exceeds 21.\<close>

definition truncate_history :: "turn list \<Rightarrow> turn list" where
  "truncate_history history =
     (if length history > 21 then history ! 0 # drop (length history - 20) history
      else history)"

text \<open>
  Lines 205 to 218. \<open>parsed.text\<close> throws when \<open>parsed\<close> is \<open>null\<close>, and
  \<open>generateLipSync\<close> throws at \<open>text.split\<close> when its argument is not a string; a
  parsed value that is not an object has no property \<open>text\<close>.
\<close>

definition property :: "json \<Rightarrow> string \<Rightarrow> json option" where
  "property v key = (case v of JObj kvs \<Rightarrow> map_of kvs key | _ \<Rightarrow> None)"

definition present :: "json \<Rightarrow> string \<Rightarrow> (nat \<Rightarrow> real) \<Rightarrow> thrown + response" where
  "present parsed used random =
     (case parsed of
        JNull \<Rightarrow> Inl Type_error
      | _ \<Rightarrow>
        (case property parsed ''text'' of
           Some (JStr t) \<Rightarrow>
             Inr \<lparr>status = 200,
                  messages = [\<lparr>msg_text = t,
                               audio = [],
                               lipsync = generateLipSync random t,
                               facialExpression = or_default (property parsed ''facialExpression'') ''default'',
                               animation = or_default (property parsed ''animation'') ''Talking_1''\<rparr>],
                  model_used = Some used,
                  error = None\<rparr>
         | _ \<Rightarrow> Inl Type_error))"

text \<open>\<open>await c.req.json().catch(() => ({}))\<close>, and \<open>body.sessionId || "default"\<close>.\<close>

definition read_body :: "body option \<Rightarrow> body" where
  "read_body jb = (case jb of None \<Rightarrow> \<lparr>message = None, sessionId = None\<rparr> | Some b \<Rightarrow> b)"

definition session_id :: "body \<Rightarrow> string" where
  "session_id b = or_else (sessionId b) ''default''"

definition chat ::
  "(string \<rightharpoonup> json) \<Rightarrow> env \<Rightarrow> chat_request \<Rightarrow> fetch_outcome \<Rightarrow> (nat \<Rightarrow> real) \<Rightarrow> registry \<Rightarrow> chat_result" where
  "chat JSON_parse e req outcome random reg =
     (case GROQ_API_KEY e of
        None \<Rightarrow> \<lparr>store = reg, reply = not_configured random, calls = []\<rparr>
      | Some apiKey \<Rightarrow>
        if apiKey = [] then \<lparr>store = reg, reply = not_configured random, calls = []\<rparr>
        else
          let b = read_body (json_body req);
              userMessage = message b;
              sid = session_id b;
              reg1 = get_or_create reg sid;
              history1 = history_of reg1 sid @ [\<lparr>role = User, content = user_content userMessage\<rparr>];
              reg2 = reg1(sid \<mapsto> history1);
              sent = \<lparr>authorization = ''Bearer '' @ apiKey,
                      sent_model = select_model (query_model req) (INTERVIEW_MODEL e),
                      sent_messages = history1,
                      temperature = 0.7,
                      max_tokens = 300,
                      response_format = ''json_object''\<rparr>
          in case read_completion outcome of
               Inl err \<Rightarrow> \<lparr>store = reg2, reply = trouble err random, calls = [sent]\<rparr>
             | Inr (choices, used) \<Rightarrow>
                 let aiContent = first_content choices;
                     parsed = parse_reply JSON_parse aiContent;
                     history2 = history1 @ [\<lparr>role = Assistant, content = aiContent\<rparr>];
                     reg3 = reg2(sid \<mapsto> truncate_history history2)
                 in case present parsed used random of
                      Inl err \<Rightarrow> \<lparr>store = reg3, reply = trouble err random, calls = [sent]\<rparr>
                    | Inr r \<Rightarrow> \<lparr>store = reg3, reply = r, calls = [sent]\<rparr>)"

subsection \<open>POST /reset, and sequences of requests\<close>

definition reset :: "body option \<Rightarrow> registry \<Rightarrow> registry" where
  "reset jb reg = reg(session_id (read_body jb) := None)"

datatype event =
    Chat env chat_request fetch_outcome "nat \<Rightarrow> real"
  | Reset "body option"

fun step :: "(string \<rightharpoonup> json) \<Rightarrow> registry \<Rightarrow> event \<Rightarrow> registry" where
  "step JSON_parse reg (Chat e req outcome random) = store (chat JSON_parse e req outcome random reg)"
| "step JSON_parse reg (Reset jb) = reset jb reg"

text \<open>The registry after a sequence of requests, from the empty map of a fresh worker.\<close>

definition run :: "(string \<rightharpoonup> json) \<Rightarrow> event list \<Rightarrow> registry" where
  "run JSON_parse events = foldl (step JSON_parse) Map.empty events"

subsection \<open>Vocabulary of the properties\<close>

text \<open>The session and the user turn of a chat request.\<close>

definition session_of :: "chat_request \<Rightarrow> string" where
  "session_of req = session_id (read_body (json_body req))"

definition user_turn :: "chat_request \<Rightarrow> turn" where
  "user_turn req = \<lparr>role = User, content = user_content (message (read_body (json_body req)))\<rparr>"

text \<open>The roles of a list of turns alternate, starting with \<open>r\<close>.\<close>

fun alternates :: "role \<Rightarrow> turn list \<Rightarrow> bool" where
  "alternates r [] = True"
| "alternates r (t # ts) = (role t = r \<and> alternates (if r = User then Assistant else User) ts)"

text \<open>A request that does not end in a failed provider call: a reset, a chat without
  an API key (no call is made), or a chat whose call yields a completion.\<close>

fun no_failed_call :: "event \<Rightarrow> bool" where
  "no_failed_call (Chat e req outcome random) =
     (GROQ_API_KEY e = None \<or> GROQ_API_KEY e = Some []
      \<or> (case read_completion outcome of Inl err \<Rightarrow> False | Inr d \<Rightarrow> True))"
| "no_failed_call (Reset jb) = True"

text \<open>The time stamp of a clock value: \<open>Math.round(t * 100) / 100\<close>.\<close>

definition stamp :: "real \<Rightarrow> real" where
  "stamp t = Number_div (Math_round (Number_mul t 100)) 100"

text \<open>The two invariants of the registry.\<close>

definition starts_with_system :: "registry \<Rightarrow> bool" where
  "starts_with_system reg = (\<forall>sid h. reg sid = Some h \<longrightarrow> h \<noteq> [] \<and> h ! 0 = system_turn)"

definition well_alternating :: "registry \<Rightarrow> bool" where
  "well_alternating reg =
     (\<forall>sid h. reg sid = Some h \<longrightarrow> alternates User (tl h) \<and> odd (length h))"

text \<open>A reply of the shape the system prompt asks for: an object whose \<open>text\<close>,
  \<open>facialExpression\<close> and \<open>animation\<close> are strings.\<close>

definition expected_reply :: "json option \<Rightarrow> bool" where
  "expected_reply v =
     (case v of
        Some (JObj kvs) \<Rightarrow>
          (case (map_of kvs ''text'', map_of kvs ''facialExpression'', map_of kvs ''animation'') of
             (Some (JStr t), Some (JStr f), Some (JStr a)) \<Rightarrow> True
           | _ \<Rightarrow> False)
      | _ \<Rightarrow> False)"

subsection \<open>Sample inputs\<close>

text \<open>Every draw is one half; every draw is three eighths.\<close>

definition half :: "nat \<Rightarrow> real" where
  "half i = 1 / 2"

definition three_eighths :: "nat \<Rightarrow> real" where
  "three_eighths i = 3 / 8"

text \<open>\<open>JSON.parse\<close> at the one JSON text the examples use; it throws at the other
  example texts, which are not JSON.\<close>

definition sample_parse :: "string \<rightharpoonup> json" where
  \<open>sample_parse = [''{"reply": "Good job!"}'' \<mapsto> JObj [(''reply'', JStr ''Good job!'')]]\<close>

definition env_with_key :: env where
  "env_with_key = \<lparr>GROQ_API_KEY = Some ''gsk_test'', INTERVIEW_MODEL = None\<rparr>"

definition env_without_key :: env where
  "env_without_key = \<lparr>GROQ_API_KEY = None, INTERVIEW_MODEL = None\<rparr>"

definition say_hi :: chat_request where
  "say_hi = \<lparr>json_body = Some \<lparr>message = Some ''hi'', sessionId = None\<rparr>, query_model = None\<rparr>"

definition provider_503 :: fetch_outcome where
  "provider_503 = Responded \<lparr>http_status = 503, payload = Not_JSON\<rparr>"

definition provider_says :: "string \<Rightarrow> fetch_outcome" where
  "provider_says c =
     Responded \<lparr>http_status = 200, payload = Completion [Some c] ''llama-3.3-70b-versatile''\<rparr>"

section \<open>Double arithmetic\<close>

lemma round_ties_even_error: "\<bar>of_int (round_ties_even y) - y\<bar> \<le> 1 / 2"
  unfolding round_ties_even_def Let_def by (auto; linarith)

text \<open>The exponent computed by \<open>binade\<close> is the one of the binade that holds \<open>x\<close>.\<close>

lemma binade_bounds:
  assumes "x \<noteq> 0"
  shows "2 powi binade x \<le> \<bar>x\<bar>" and "\<bar>x\<bar> < 2 powi (binade x + 1)"
proof -
  have "2 powi binade x \<le> \<bar>x\<bar> \<and> \<bar>x\<bar> < 2 powi (binade x + 1)"
  proof (cases "1 \<le> \<bar>x\<bar>")
    case True
    define n where "n = \<lfloor>\<bar>x\<bar>\<rfloor>"
    have n: "0 < n" using True by (simp add: n_def)
    have b: "1 \<le> bitlen n" using n by (simp add: bitlen_alt_def)
    from bitlen_bounds[OF n] have lo: "2 ^ nat (bitlen n - 1) \<le> n" and hi: "n < 2 ^ nat (bitlen n)"
      by simp_all
    have e: "binade x = bitlen n - 1" using True by (simp add: binade_def n_def)
    have "(2::real) powi (bitlen n - 1) = 2 ^ nat (bitlen n - 1)"
      using b by (simp add: power_int_def)
    also have "\<dots> \<le> of_int n" using lo by simp
    also have "\<dots> \<le> \<bar>x\<bar>" by (simp add: n_def)
    finally have l: "2 powi binade x \<le> \<bar>x\<bar>" by (simp add: e)
    from hi have "n + 1 \<le> 2 ^ nat (bitlen n)" by simp
    then have "real_of_int (n + 1) \<le> real_of_int (2 ^ nat (bitlen n))"
      by (simp only: of_int_le_iff)
    then have "of_int n + 1 \<le> (2::real) ^ nat (bitlen n)"
      by (simp only: of_int_add of_int_1 of_int_power of_int_numeral)
    moreover have "\<bar>x\<bar> < of_int n + 1" unfolding n_def by linarith
    ultimately have "\<bar>x\<bar> < 2 ^ nat (bitlen n)" by linarith
    also have "(2::real) ^ nat (bitlen n) = 2 powi (bitlen n)"
      using b by (simp add: power_int_def)
    finally have "\<bar>x\<bar> < 2 powi (binade x + 1)" by (simp add: e)
    with l show ?thesis ..
  next
    case False
    define y where "y = 1 / \<bar>x\<bar>"
    have x0: "0 < \<bar>x\<bar>" using assms by simp
    have y1: "1 < y" using False x0 by (simp add: y_def)
    define m where "m = \<lceil>y\<rceil> - 1"
    have m: "0 < m" using y1 unfolding m_def by linarith
    have my: "of_int m < y" "y \<le> of_int m + 1" unfolding m_def by linarith+
    have b: "1 \<le> bitlen m" using m by (simp add: bitlen_alt_def)
    from bitlen_bounds[OF m] have lo: "2 ^ nat (bitlen m - 1) \<le> m" and hi: "m < 2 ^ nat (bitlen m)"
      by simp_all
    have e: "binade x = - bitlen m" using False by (simp add: binade_def m_def y_def)
    from hi have "m + 1 \<le> 2 ^ nat (bitlen m)" by simp
    then have "real_of_int (m + 1) \<le> real_of_int (2 ^ nat (bitlen m))"
      by (simp only: of_int_le_iff)
    then have "of_int m + 1 \<le> (2::real) ^ nat (bitlen m)"
      by (simp only: of_int_add of_int_1 of_int_power of_int_numeral)
    with my(2) have yhi: "y \<le> 2 ^ nat (bitlen m)" by linarith
    have "(2::real) ^ nat (bitlen m - 1) \<le> of_int m" using lo by simp
    with my(1) have ylo: "2 ^ nat (bitlen m - 1) < y" by linarith
    have xy: "\<bar>x\<bar> = 1 / y" by (simp add: y_def)
    have "2 powi (- bitlen m) = 1 / (2::real) ^ nat (bitlen m)"
      using b by (simp add: power_int_def field_simps)
    also have "\<dots> \<le> 1 / y" using yhi y1 by (simp add: frac_le)
    finally have l: "2 powi binade x \<le> \<bar>x\<bar>" by (simp add: e xy)
    have "1 / y < 1 / (2::real) ^ nat (bitlen m - 1)"
      using ylo by (simp add: frac_less2)
    also have "\<dots> = 2 powi (- bitlen m + 1)"
    proof -
      have "- bitlen m + 1 = - int (nat (bitlen m - 1))" using b by simp
      then show ?thesis by (simp only: power_int_minus power_int_of_nat) (simp add: field_simps)
    qed
    finally have "\<bar>x\<bar> < 2 powi (binade x + 1)" by (simp add: e xy)
    with l show ?thesis ..
  qed
  then show "2 powi binade x \<le> \<bar>x\<bar>" and "\<bar>x\<bar> < 2 powi (binade x + 1)" by simp_all
qed

text \<open>Rounding to a double moves a value by at most half a unit in the last place.\<close>

lemma double_error: "\<bar>double x - x\<bar> \<le> \<bar>x\<bar> / 2 ^ 53 + 1 / 2 ^ 1075"
proof (cases "x = 0")
  case True
  then show ?thesis by (simp add: double_def)
next
  case x: False
  define e where "e = max (binade x) (- 1022) - 52"
  define u :: real where "u = 2 powi e"
  have u0: "0 < u" by (simp add: u_def)
  have d: "double x = of_int (round_ties_even (x / u)) * u"
    using x by (simp add: double_def Let_def u_def e_def)
  have "double x - x = (of_int (round_ties_even (x / u)) - x / u) * u"
    using u0 by (simp add: d left_diff_distrib)
  then have "\<bar>double x - x\<bar> = \<bar>of_int (round_ties_even (x / u)) - x / u\<bar> * u"
    using u0 by (simp add: abs_mult)
  also have "\<dots> \<le> 1 / 2 * u"
    using round_ties_even_error[of "x / u"] u0 by (intro mult_right_mono) simp_all
  finally have h: "\<bar>double x - x\<bar> \<le> u / 2" by simp
  have p: "0 \<le> \<bar>x\<bar> / 2 ^ 53" "(0::real) \<le> 1 / 2 ^ 1075" by simp_all
  have "u / 2 \<le> \<bar>x\<bar> / 2 ^ 53 + 1 / 2 ^ 1075"
  proof (cases "- 1022 \<le> binade x")
    case True
    then have "e = binade x - 52" by (simp add: e_def)
    then have "u = 2 powi binade x / 2 ^ 52"
      by (simp add: u_def power_int_diff)
    also have "\<dots> \<le> \<bar>x\<bar> / 2 ^ 52"
      using binade_bounds(1)[OF x] by (simp add: divide_right_mono)
    finally have "u / 2 \<le> \<bar>x\<bar> / 2 ^ 53" by simp
    with p(2) show ?thesis by linarith
  next
    case False
    then have "e = - 1074" by (simp add: e_def)
    then have "u = 1 / 2 ^ 1074" by (simp add: u_def power_int_def field_simps)
    then have "u / 2 = 1 / 2 ^ 1075" by simp
    with p(1) show ?thesis by linarith
  qed
  with h show ?thesis by linarith
qed

lemma double_small_error:
  assumes "\<bar>x\<bar> \<le> 2 ^ 40"
  shows "\<bar>double x - x\<bar> \<le> 1 / 4096"
proof -
  have "\<bar>x\<bar> / 2 ^ 53 \<le> 2 ^ 40 / 2 ^ 53" using assms by (simp add: divide_right_mono)
  moreover have "(1::real) / 2 ^ 1075 \<le> 1 / 2 ^ 13"
    by (intro divide_left_mono power_increasing) simp_all
  moreover have "(2::real) ^ 40 / 2 ^ 53 = 1 / 2 ^ 13" by simp
  ultimately have "\<bar>x\<bar> / 2 ^ 53 + 1 / 2 ^ 1075 \<le> 1 / 2 ^ 13 + 1 / 2 ^ 13" by linarith
  also have "\<dots> = (1::real) / 4096" by simp
  finally show ?thesis using double_error[of x] by linarith
qed

lemma double_within:
  assumes "\<bar>x\<bar> \<le> 2 ^ 40"
  shows "x - 1 / 4096 \<le> double x" and "double x \<le> x + 1 / 4096"
  using double_small_error[OF assms] by (simp_all only: abs_diff_le_iff)

text \<open>The double nearest to one tenth, and the stamps of 0.57 and 0.66.\<close>

lemma double_examples:
  "double 0.1 = 3602879701896397 / 2 ^ 55"
  "double 0.57 = 5134103575202365 / 2 ^ 53"
  "double 0.66 = 5944751508129055 / 2 ^ 53"
  "double 100 = 100"
  by code_simp+

section \<open>The lip-sync track\<close>

lemma literal_bounds:
  "0.0797 \<le> double 0.08" "double 0.08 \<le> 0.0803"
  "0.0397 \<le> double 0.04" "double 0.04 \<le> 0.0403"
  "0.0997 \<le> double 0.1" "double 0.1 \<le> 0.1003"
proof -
  have a: "\<bar>0.08 :: real\<bar> \<le> 2 ^ 40" "\<bar>0.04 :: real\<bar> \<le> 2 ^ 40" "\<bar>0.1 :: real\<bar> \<le> 2 ^ 40"
    by simp_all
  show "0.0797 \<le> double 0.08" using double_within(1)[OF a(1)] by simp
  show "double 0.08 \<le> 0.0803" using double_within(2)[OF a(1)] by simp
  show "0.0397 \<le> double 0.04" using double_within(1)[OF a(2)] by simp
  show "double 0.04 \<le> 0.0403" using double_within(2)[OF a(2)] by simp
  show "0.0997 \<le> double 0.1" using double_within(1)[OF a(3)] by simp
  show "double 0.1 \<le> 0.1003" using double_within(2)[OF a(3)] by simp
qed

lemma duration_bounds:
  assumes "0 \<le> r" and "r < 1"
  shows "(79 / 1000) \<le> Number_add (double 0.08) (Number_mul r (double 0.04))"
    and "Number_add (double 0.08) (Number_mul r (double 0.04)) \<le> (122 / 1000)"
proof -
  define p where "p = r * double 0.04"
  have p: "0 \<le> p" "p \<le> 0.0403"
  proof -
    show "0 \<le> p" using assms(1) literal_bounds(3) by (simp add: p_def)
    have "p \<le> 1 * double 0.04"
      unfolding p_def using assms literal_bounds(3) by (intro mult_right_mono) simp_all
    then show "p \<le> 0.0403" using literal_bounds(4) by simp
  qed
  have "\<bar>p\<bar> \<le> 2 ^ 40" using p by simp
  note dp = double_within[OF this]
  define s where "s = double 0.08 + double p"
  have s: "0.0794 \<le> s" "s \<le> 0.1209"
    using dp p literal_bounds(1,2) unfolding s_def by simp_all
  then have "\<bar>s\<bar> \<le> 2 ^ 40" by simp
  note ds = double_within[OF this]
  have eq: "Number_add (double 0.08) (Number_mul r (double 0.04)) = double s"
    by (simp add: Number_add_def Number_mul_def s_def p_def)
  show "(79 / 1000) \<le> Number_add (double 0.08) (Number_mul r (double 0.04))"
    and "Number_add (double 0.08) (Number_mul r (double 0.04)) \<le> (122 / 1000)"
    unfolding eq using ds s by simp_all
qed

text \<open>A round of the inner loop moves the clock on, by 0.078 to 0.123.\<close>

lemma clock_step:
  assumes "0 \<le> t" and "t + (123 / 1000) \<le> 2 ^ 33" and "(79 / 1000) \<le> d" and "d \<le> (122 / 1000)"
  shows "t + (78 / 1000) \<le> Number_add t d" and "Number_add t d \<le> t + (123 / 1000)"
proof -
  have "\<bar>t + d\<bar> \<le> 2 ^ 40" using assms by simp
  note e = double_within[OF this]
  show "t + (78 / 1000) \<le> Number_add t d" and "Number_add t d \<le> t + (123 / 1000)"
    using e assms(3,4) unfolding Number_add_def by simp_all
qed

text \<open>The pause after a word does not move the clock back.\<close>

lemma pause_step:
  assumes "0 \<le> t" and "t + (123 / 1000) \<le> 2 ^ 33"
  shows "t \<le> Number_add t (double 0.1)" and "Number_add t (double 0.1) \<le> t + (123 / 1000)"
proof -
  have "\<bar>t + double 0.1\<bar> \<le> 2 ^ 40" using assms literal_bounds(5,6) by simp
  note e = double_within[OF this]
  show "t \<le> Number_add t (double 0.1)" and "Number_add t (double 0.1) \<le> t + (123 / 1000)"
    using e literal_bounds(5,6) unfolding Number_add_def by simp_all
qed

text \<open>Two clock values that are 0.078 apart have stamps in the same order.\<close>

lemma stamp_gap:
  assumes "0 \<le> a" and "a + (78 / 1000) \<le> b" and "b \<le> 2 ^ 33"
  shows "stamp a < stamp b"
proof -
  define x where "x = double (a * 100)"
  define y where "y = double (b * 100)"
  define n where "n = \<lfloor>x + 1 / 2\<rfloor>"
  define m where "m = \<lfloor>y + 1 / 2\<rfloor>"
  have b0: "0 \<le> b" and a33: "a \<le> 2 ^ 33" using assms by simp_all
  have "\<bar>a * 100\<bar> \<le> 2 ^ 40" using assms(1) a33 by simp
  note x = double_within[OF this, folded x_def]
  have "\<bar>b * 100\<bar> \<le> 2 ^ 40" using b0 assms(3) by simp
  note y = double_within[OF this, folded y_def]
  have xy: "x + 7 \<le> y" using x(2) y(1) assms(2) by simp
  have "n + 7 = \<lfloor>(x + 7) + 1 / 2\<rfloor>" unfolding n_def by linarith
  also have "\<dots> \<le> m" unfolding m_def using xy by (intro floor_mono) simp
  finally have nm: "n + 7 \<le> m" .
  have x0: "- 1 / 4096 \<le> x" using x(1) assms(1) by simp
  have y0: "- 1 / 4096 \<le> y" using y(1) b0 by simp
  have n0: "0 \<le> n" using x0 unfolding n_def by simp
  have n1: "real_of_int n \<le> a * 100 + 1" using x(2) unfolding n_def by linarith
  have m0: "0 \<le> m" using y0 unfolding m_def by simp
  have m1: "real_of_int m \<le> b * 100 + 1" using y(2) unfolding m_def by linarith
  have "\<bar>real_of_int n / 100\<bar> \<le> 2 ^ 40" using n0 n1 a33 by simp
  note sa = double_within[OF this]
  have "\<bar>real_of_int m / 100\<bar> \<le> 2 ^ 40" using m0 m1 assms(3) by simp
  note sb = double_within[OF this]
  have "real_of_int n + 7 \<le> real_of_int m" using nm by linarith
  then have "real_of_int n / 100 + 7 / 100 \<le> real_of_int m / 100" by simp
  then have "double (real_of_int n / 100) < double (real_of_int m / 100)"
    using sa(2) sb(1) by simp
  then show ?thesis
    by (simp add: stamp_def Number_div_def Number_mul_def Math_round_def x_def y_def n_def m_def)
qed

text \<open>
  The inner loop. While the clock stays below \<open>2 ^ 33\<close>, it does not go back, every cue
  pushed starts before it ends, and the cues start in order: the cue pushed at the
  clock value \<open>\<tau>\<close> starts at \<open>stamp \<tau>\<close>, and the clock is at least 0.078 later after it.
\<close>

lemma word_cues_props:
  assumes draws: "\<forall>i. 0 \<le> random i \<and> random i < 1"
    and "0 \<le> t" and "t + (123 / 1000) * real n \<le> 2 ^ 33"
    and "word_cues random n k t = (cs, k', t')"
  shows "t \<le> t' \<and> t' \<le> t + (123 / 1000) * real n
         \<and> sorted (map cue_start cs)
         \<and> (\<forall>c \<in> set cs. cue_start c < cue_end c
                \<and> (\<exists>\<tau>. t \<le> \<tau> \<and> \<tau> + (78 / 1000) \<le> t' \<and> cue_start c = stamp \<tau>))"
  using assms(2-4)
proof (induction n arbitrary: k t cs k' t')
  case 0
  then show ?case by simp
next
  case (Suc n)
  define d where "d = Number_add (double 0.08) (Number_mul (random k) (double 0.04))"
  define t1 where "t1 = Number_add t d"
  obtain cs1 k1 t2 where r: "word_cues random n (k + 2) t1 = (cs1, k1, t2)"
    by (metis prod_cases3)
  define c0 where "c0 = \<lparr>cue_start = stamp t, cue_end = stamp t1,
                           cue_value = pick_viseme (random (k + 1))\<rparr>"
  from Suc.prems(3) r have cs: "cs = c0 # cs1" and t': "t' = t2"
    by (simp_all add: Let_def d_def t1_def c0_def stamp_def)
  from draws have "0 \<le> random k" "random k < 1" by simp_all
  from duration_bounds[OF this] have d: "(79 / 1000) \<le> d" "d \<le> (122 / 1000)" by (simp_all add: d_def)
  have budget: "t + (123 / 1000) + (123 / 1000) * real n \<le> 2 ^ 33"
  proof -
    have "(123 / 1000) * real (Suc n) = (123 / 1000) + (123 / 1000) * real n" by (simp add: distrib_left)
    with Suc.prems(2) show ?thesis by linarith
  qed
  have nn: "0 \<le> (123 / 1000) * real n" by simp
  have room: "t + (123 / 1000) \<le> 2 ^ 33" using budget nn by linarith
  from clock_step[OF Suc.prems(1) room d]
  have t1: "t + (78 / 1000) \<le> t1" "t1 \<le> t + (123 / 1000)" by (simp_all add: t1_def)
  have t10: "0 \<le> t1" using t1(1) Suc.prems(1) by simp
  have room1: "t1 + (123 / 1000) * real n \<le> 2 ^ 33"
    using t1(2) budget by linarith
  from Suc.IH[OF t10 room1 r]
  have ih1: "t1 \<le> t2" and ih2: "t2 \<le> t1 + (123 / 1000) * real n"
    and ih3: "sorted (map cue_start cs1)"
    and ih4: "\<forall>c \<in> set cs1. cue_start c < cue_end c
                \<and> (\<exists>\<tau>. t1 \<le> \<tau> \<and> \<tau> + (78 / 1000) \<le> t2 \<and> cue_start c = stamp \<tau>)"
    by simp_all
  have t2: "t2 \<le> 2 ^ 33" using ih2 room1 by simp
  have "t1 \<le> 2 ^ 33" using ih1 t2 by simp
  from stamp_gap[OF Suc.prems(1) t1(1) this]
  have c0: "cue_start c0 < cue_end c0" by (simp add: c0_def)
  have first: "\<forall>c \<in> set cs1. cue_start c0 \<le> cue_start c"
  proof
    fix c assume "c \<in> set cs1"
    with ih4 obtain \<tau> where \<tau>: "t1 \<le> \<tau>" "\<tau> + (78 / 1000) \<le> t2" "cue_start c = stamp \<tau>" by blast
    have "t + (78 / 1000) \<le> \<tau>" using t1(1) \<tau>(1) by simp
    moreover have "\<tau> \<le> 2 ^ 33" using \<tau>(2) t2 by simp
    ultimately have "stamp t < stamp \<tau>" using Suc.prems(1) by (intro stamp_gap)
    then show "cue_start c0 \<le> cue_start c" by (simp add: c0_def \<tau>(3))
  qed
  have at0: "\<exists>\<tau>. t \<le> \<tau> \<and> \<tau> + (78 / 1000) \<le> t2 \<and> cue_start c0 = stamp \<tau>"
    using t1(1) ih1 by (intro exI[of _ t]) (simp add: c0_def)
  have rest: "\<forall>c \<in> set cs1. cue_start c < cue_end c
                \<and> (\<exists>\<tau>. t \<le> \<tau> \<and> \<tau> + (78 / 1000) \<le> t2 \<and> cue_start c = stamp \<tau>)"
  proof
    fix c assume c: "c \<in> set cs1"
    with ih4 obtain \<tau> where \<tau>: "t1 \<le> \<tau>" "\<tau> + (78 / 1000) \<le> t2" "cue_start c = stamp \<tau>" by blast
    have "t \<le> \<tau>" using t1(1) \<tau>(1) by simp
    with \<tau> c ih4 show "cue_start c < cue_end c
                \<and> (\<exists>\<tau>. t \<le> \<tau> \<and> \<tau> + (78 / 1000) \<le> t2 \<and> cue_start c = stamp \<tau>)"
      by blast
  qed
  have "t \<le> t2" using t1(1) ih1 by simp
  moreover have "t2 \<le> t + (123 / 1000) * real (Suc n)"
  proof -
    have "(123 / 1000) * real (Suc n) = (123 / 1000) + (123 / 1000) * real n" by (simp add: distrib_left)
    with ih2 t1(2) show ?thesis by linarith
  qed
  ultimately show ?case
    unfolding cs t' using ih3 c0 first at0 rest by simp
qed

text \<open>The pieces of a text and their pauses use up one round of the clock for each
  code unit of the text, and one more.\<close>

lemma split_space_examples:
  "split_space [] = [] # []"
  "split_space ''a '' = [''a'', []]"
  "split_space '' a  b'' = [[], ''a'', [], ''b'']"
  by simp_all

lemma split_space_nonempty: "split_space str \<noteq> []"
  by (induction str) (auto split: list.splits)

lemma split_space_rounds: "(\<Sum>w\<leftarrow>split_space str. length w + 1) = length str + 1"
proof (induction str)
  case Nil
  then show ?case by simp
next
  case (Cons c cs)
  obtain w ws where s: "split_space cs = w # ws"
    using split_space_nonempty[of cs] by (cases "split_space cs") auto
  with Cons show ?case by simp
qed

text \<open>The outer loop, under the same bound on the clock.\<close>

lemma words_cues_props:
  assumes draws: "\<forall>i. 0 \<le> random i \<and> random i < 1"
    and "0 \<le> t" and "t + (123 / 1000) * real (\<Sum>w\<leftarrow>ws. length w + 1) \<le> 2 ^ 33"
  shows "sorted (map cue_start (words_cues random ws k t))
         \<and> (\<forall>c \<in> set (words_cues random ws k t). cue_start c < cue_end c
                \<and> (\<exists>\<tau>. t \<le> \<tau> \<and> \<tau> \<le> 2 ^ 33 \<and> cue_start c = stamp \<tau>))"
  using assms(2,3)
proof (induction ws arbitrary: k t)
  case Nil
  then show ?case by simp
next
  case (Cons w ws)
  obtain cs k1 t1 where r: "word_cues random (length w) k t = (cs, k1, t1)"
    by (metis prod_cases3)
  define t2 where "t2 = Number_add t1 (double 0.1)"
  define rest where "rest = words_cues random ws k1 t2"
  have eq: "words_cues random (w # ws) k t = cs @ rest"
    using r by (simp add: rest_def t2_def)
  have budget: "t + (123 / 1000) * real (length w) + (123 / 1000) + (123 / 1000) * real (\<Sum>w\<leftarrow>ws. length w + 1) \<le> 2 ^ 33"
  proof -
    have "real (\<Sum>w\<leftarrow>w # ws. length w + 1)
            = real (length w) + 1 + real (\<Sum>w\<leftarrow>ws. length w + 1)"
      by simp
    then have "(123 / 1000) * real (\<Sum>w\<leftarrow>w # ws. length w + 1)
            = (123 / 1000) * real (length w) + (123 / 1000) + (123 / 1000) * real (\<Sum>w\<leftarrow>ws. length w + 1)"
      by (simp only: distrib_left mult_1_right)
    with Cons.prems(2) show ?thesis by linarith
  qed
  have nn: "0 \<le> (123 / 1000) * real (\<Sum>w\<leftarrow>ws. length w + 1)" by simp
  have room: "t + (123 / 1000) * real (length w) \<le> 2 ^ 33" using budget nn by linarith
  from word_cues_props[OF draws Cons.prems(1) room r]
  have w1: "t \<le> t1" and w2: "t1 \<le> t + (123 / 1000) * real (length w)"
    and w3: "sorted (map cue_start cs)"
    and w4: "\<forall>c \<in> set cs. cue_start c < cue_end c
                \<and> (\<exists>\<tau>. t \<le> \<tau> \<and> \<tau> + (78 / 1000) \<le> t1 \<and> cue_start c = stamp \<tau>)"
    by simp_all
  have t10: "0 \<le> t1" using w1 Cons.prems(1) by simp
  have room1: "t1 + (123 / 1000) \<le> 2 ^ 33" using w2 budget nn by linarith
  from pause_step[OF t10 room1]
  have p: "t1 \<le> t2" "t2 \<le> t1 + (123 / 1000)" by (simp_all add: t2_def)
  have t20: "0 \<le> t2" using p(1) t10 by simp
  have room2: "t2 + (123 / 1000) * real (\<Sum>w\<leftarrow>ws. length w + 1) \<le> 2 ^ 33"
    using p(2) w2 budget by linarith
  from Cons.IH[OF t20 room2, of k1]
  have i1: "sorted (map cue_start rest)"
    and i2: "\<forall>c \<in> set rest. cue_start c < cue_end c
                \<and> (\<exists>\<tau>. t2 \<le> \<tau> \<and> \<tau> \<le> 2 ^ 33 \<and> cue_start c = stamp \<tau>)"
    by (simp_all add: rest_def)
  have cross: "\<forall>x \<in> set cs. \<forall>y \<in> set rest. cue_start x \<le> cue_start y"
  proof (intro ballI)
    fix x y assume "x \<in> set cs" "y \<in> set rest"
    with w4 i2 obtain a b where a: "t \<le> a" "a + (78 / 1000) \<le> t1" "cue_start x = stamp a"
      and b: "t2 \<le> b" "b \<le> 2 ^ 33" "cue_start y = stamp b"
      by blast
    have "0 \<le> a" using a(1) Cons.prems(1) by simp
    moreover have "a + (78 / 1000) \<le> b" using a(2) p(1) b(1) by simp
    ultimately have "stamp a < stamp b" using b(2) by (intro stamp_gap)
    then show "cue_start x \<le> cue_start y" by (simp add: a(3) b(3))
  qed
  have t133: "t1 \<le> 2 ^ 33" using room1 by simp
  have left: "\<forall>c \<in> set cs. cue_start c < cue_end c
                \<and> (\<exists>\<tau>. t \<le> \<tau> \<and> \<tau> \<le> 2 ^ 33 \<and> cue_start c = stamp \<tau>)"
  proof
    fix c assume c: "c \<in> set cs"
    with w4 obtain \<tau> where \<tau>: "t \<le> \<tau>" "\<tau> + (78 / 1000) \<le> t1" "cue_start c = stamp \<tau>" by blast
    have "\<tau> \<le> 2 ^ 33" using \<tau>(2) t133 by simp
    with \<tau> c w4 show "cue_start c < cue_end c
                \<and> (\<exists>\<tau>. t \<le> \<tau> \<and> \<tau> \<le> 2 ^ 33 \<and> cue_start c = stamp \<tau>)"
      by blast
  qed
  have right: "\<forall>c \<in> set rest. cue_start c < cue_end c
                \<and> (\<exists>\<tau>. t \<le> \<tau> \<and> \<tau> \<le> 2 ^ 33 \<and> cue_start c = stamp \<tau>)"
  proof
    fix c assume c: "c \<in> set rest"
    with i2 obtain \<tau> where \<tau>: "t2 \<le> \<tau>" "\<tau> \<le> 2 ^ 33" "cue_start c = stamp \<tau>" by blast
    have "t \<le> \<tau>" using w1 p(1) \<tau>(1) by simp
    with \<tau> c i2 show "cue_start c < cue_end c
                \<and> (\<exists>\<tau>. t \<le> \<tau> \<and> \<tau> \<le> 2 ^ 33 \<and> cue_start c = stamp \<tau>)"
      by blast
  qed
  show ?case
    unfolding eq using w3 i1 cross left right by (auto simp: sorted_append)
qed

text \<open>
  C5. For every text (a string of the runtime: fewer than \<open>2 ^ 32\<close> code units) and
  every sequence of draws from the unit interval, each cue of the track starts before
  it ends, and the start times do not decrease along the track; the track of the empty
  text is empty. The time stamps are computed in double arithmetic, as the code does.
\<close>

theorem lipsync_cues_ordered:
  assumes "\<forall>i. 0 \<le> random i \<and> random i < 1" and "length txt < 2 ^ 32"
  shows "(\<forall>c \<in> set (mouthCues (generateLipSync random txt)). cue_start c < cue_end c)
         \<and> sorted (map cue_start (mouthCues (generateLipSync random txt)))
         \<and> mouthCues (generateLipSync random []) = []"
proof -
  have "real (length txt + 1) \<le> 2 ^ 32"
  proof -
    from assms(2) have "length txt + 1 \<le> 2 ^ 32" by simp
    then have "real (length txt + 1) \<le> real (2 ^ 32)" by (simp only: of_nat_le_iff)
    then show ?thesis by simp
  qed
  then have "0 + (123 / 1000) * real (\<Sum>w\<leftarrow>split_space txt. length w + 1) \<le> 2 ^ 33"
    unfolding split_space_rounds by simp
  from words_cues_props[OF assms(1) order_refl this, of 0]
  show ?thesis by (simp add: generateLipSync_def)
qed

text \<open>
  The text \<open>aaaaaaa\<close> with every draw at 0.375, round by round. The duration is the
  double 0.095 each time, and the clock after the seventh round is the double
  0.6649999999999999, so the seventh cue runs from 0.57 to 0.66 (exact arithmetic
  would end it at 0.67).
\<close>

lemma word_cues_round:
  assumes "Number_add t (Number_add (double 0.08) (Number_mul (random k) (double 0.04))) = t1"
    and "word_cues random n (k + 2) t1 = (cs, k', t')"
  shows "word_cues random (Suc n) k t =
           (\<lparr>cue_start = stamp t, cue_end = stamp t1,
             cue_value = pick_viseme (random (k + 1))\<rparr> # cs, k', t')"
  using assms by (simp add: Let_def stamp_def)

lemma seven_clocks:
  "Number_add 0 (Number_add (double 0.08) (Number_mul (three_eighths k) (double 0.04)))
     = 3422735716801577 / 2 ^ 55"
  "Number_add (3422735716801577 / 2 ^ 55) (Number_add (double 0.08) (Number_mul (three_eighths k) (double 0.04)))
     = 3422735716801577 / 2 ^ 54"
  "Number_add (3422735716801577 / 2 ^ 54) (Number_add (double 0.08) (Number_mul (three_eighths k) (double 0.04)))
     = 2567051787601183 / 2 ^ 53"
  "Number_add (2567051787601183 / 2 ^ 53) (Number_add (double 0.08) (Number_mul (three_eighths k) (double 0.04)))
     = 3422735716801577 / 2 ^ 53"
  "Number_add (3422735716801577 / 2 ^ 53) (Number_add (double 0.08) (Number_mul (three_eighths k) (double 0.04)))
     = 4278419646001971 / 2 ^ 53"
  "Number_add (4278419646001971 / 2 ^ 53) (Number_add (double 0.08) (Number_mul (three_eighths k) (double 0.04)))
     = 5134103575202365 / 2 ^ 53"
  "Number_add (5134103575202365 / 2 ^ 53) (Number_add (double 0.08) (Number_mul (three_eighths k) (double 0.04)))
     = 5989787504402759 / 2 ^ 53"
  unfolding three_eighths_def by code_simp+

lemma seven_stamps:
  "stamp 0 = double 0"
  "stamp (3422735716801577 / 2 ^ 55) = double 0.1"
  "stamp (3422735716801577 / 2 ^ 54) = double 0.19"
  "stamp (2567051787601183 / 2 ^ 53) = double 0.29"
  "stamp (3422735716801577 / 2 ^ 53) = double 0.38"
  "stamp (4278419646001971 / 2 ^ 53) = double 0.48"
  "stamp (5134103575202365 / 2 ^ 53) = double 0.57"
  "stamp (5989787504402759 / 2 ^ 53) = double 0.66"
  by code_simp+

lemma seven_visemes: "pick_viseme (three_eighths k) = Some ''D''"
  unfolding three_eighths_def by code_simp

lemma seven_cues:
  "mouthCues (generateLipSync three_eighths ''aaaaaaa'') =
     [\<lparr>cue_start = double 0, cue_end = double 0.1, cue_value = Some ''D''\<rparr>,
      \<lparr>cue_start = double 0.1, cue_end = double 0.19, cue_value = Some ''D''\<rparr>,
      \<lparr>cue_start = double 0.19, cue_end = double 0.29, cue_value = Some ''D''\<rparr>,
      \<lparr>cue_start = double 0.29, cue_end = double 0.38, cue_value = Some ''D''\<rparr>,
      \<lparr>cue_start = double 0.38, cue_end = double 0.48, cue_value = Some ''D''\<rparr>,
      \<lparr>cue_start = double 0.48, cue_end = double 0.57, cue_value = Some ''D''\<rparr>,
      \<lparr>cue_start = double 0.57, cue_end = double 0.66, cue_value = Some ''D''\<rparr>]"
proof -
  have r0: "word_cues three_eighths 0 k (5989787504402759 / 2 ^ 53)
              = ([], k, 5989787504402759 / 2 ^ 53)" for k
    by simp
  note r1 = word_cues_round[OF seven_clocks(7) r0]
  note r2 = word_cues_round[OF seven_clocks(6) r1]
  note r3 = word_cues_round[OF seven_clocks(5) r2]
  note r4 = word_cues_round[OF seven_clocks(4) r3]
  note r5 = word_cues_round[OF seven_clocks(3) r4]
  note r6 = word_cues_round[OF seven_clocks(2) r5]
  note r7 = word_cues_round[OF seven_clocks(1) r6, of 0]
  have s: "split_space ''aaaaaaa'' = ''aaaaaaa'' # []" by simp
  have l: "length ''aaaaaaa'' = Suc (Suc (Suc (Suc (Suc (Suc (Suc 0))))))" by simp
  have "mouthCues (generateLipSync three_eighths ''aaaaaaa'')
          = fst (word_cues three_eighths (Suc (Suc (Suc (Suc (Suc (Suc (Suc 0))))))) 0 0)"
    unfolding generateLipSync_def s by (simp only: l words_cues.simps lipsync_track.simps
        split_beta Let_def append_Nil2)
  then show ?thesis
    by (simp only: r7 fst_conv seven_stamps seven_visemes)
qed

theorem lipsync_cues_ordered_witness:
  "(\<forall>i. 0 \<le> three_eighths i \<and> three_eighths i < 1)
   \<and> length ''aaaaaaa'' < 2 ^ 32
   \<and> map cue_start (mouthCues (generateLipSync three_eighths ''aaaaaaa''))
       = map double [0, 0.1, 0.19, 0.29, 0.38, 0.48, 0.57]
   \<and> map cue_end (mouthCues (generateLipSync three_eighths ''aaaaaaa''))
       = map double [0.1, 0.19, 0.29, 0.38, 0.48, 0.57, 0.66]
   \<and> list_all (\<lambda>c. cue_start c < cue_end c) (mouthCues (generateLipSync three_eighths ''aaaaaaa''))
   \<and> sorted (map cue_start (mouthCues (generateLipSync three_eighths ''aaaaaaa'')))
   \<and> mouthCues (generateLipSync three_eighths []) = []"
proof -
  have h: "\<forall>i. 0 \<le> three_eighths i \<and> three_eighths i < 1" by (simp add: three_eighths_def)
  have l: "length ''aaaaaaa'' < 2 ^ 32" by simp
  have m1: "map cue_start (mouthCues (generateLipSync three_eighths ''aaaaaaa''))
       = map double [0, 0.1, 0.19, 0.29, 0.38, 0.48, 0.57]"
    by (simp only: seven_cues list.map mouth_cue.simps)
  have m2: "map cue_end (mouthCues (generateLipSync three_eighths ''aaaaaaa''))
       = map double [0.1, 0.19, 0.29, 0.38, 0.48, 0.57, 0.66]"
    by (simp only: seven_cues list.map mouth_cue.simps)
  note t = lipsync_cues_ordered[OF h l]
  from t have a: "\<forall>c \<in> set (mouthCues (generateLipSync three_eighths ''aaaaaaa'')). cue_start c < cue_end c"
    by (rule conjunct1)
  from t have b: "sorted (map cue_start (mouthCues (generateLipSync three_eighths ''aaaaaaa'')))"
    and c: "mouthCues (generateLipSync three_eighths []) = []"
    by simp_all
  from a have "list_all (\<lambda>c. cue_start c < cue_end c) (mouthCues (generateLipSync three_eighths ''aaaaaaa''))"
    by (simp only: list_all_iff)
  with h l m1 m2 b c show ?thesis by (simp only: simp_thms)
qed

section \<open>The registry\<close>

subsection \<open>The registry after a chat request\<close>

lemma truncate_history_first:
  "h \<noteq> [] \<Longrightarrow> truncate_history h \<noteq> [] \<and> truncate_history h ! 0 = h ! 0"
  by (simp add: truncate_history_def)

lemma get_or_create_starts:
  "starts_with_system reg \<Longrightarrow> starts_with_system (get_or_create reg sid)"
  by (auto simp: starts_with_system_def get_or_create_def)

lemma get_or_create_defined:
  "get_or_create reg sid sid = Some (history_of (get_or_create reg sid) sid)"
  by (auto simp: get_or_create_def history_of_def)

lemma history_of_created_first:
  assumes "starts_with_system reg"
  shows "history_of (get_or_create reg sid) sid \<noteq> [] \<and> history_of (get_or_create reg sid) sid ! 0 = system_turn"
  using get_or_create_starts[OF assms, of sid] get_or_create_defined[of reg sid]
  unfolding starts_with_system_def by blast

lemma starts_with_system_update:
  "starts_with_system reg \<Longrightarrow> h \<noteq> [] \<Longrightarrow> h ! 0 = system_turn \<Longrightarrow> starts_with_system (reg(sid \<mapsto> h))"
  by (auto simp: starts_with_system_def)

lemma chat_store_no_key:
  "GROQ_API_KEY e = None \<or> GROQ_API_KEY e = Some [] \<Longrightarrow> store (chat P e req outcome random reg) = reg"
  by (auto simp: chat_def)

lemma chat_store_failed:
  assumes "GROQ_API_KEY e = Some k" "k \<noteq> []" "read_completion outcome = Inl err"
  shows "store (chat P e req outcome random reg)
         = (get_or_create reg (session_of req))
             (session_of req \<mapsto> history_of (get_or_create reg (session_of req)) (session_of req) @ [user_turn req])"
  using assms by (simp add: chat_def Let_def user_turn_def session_of_def)

lemma chat_store_answered:
  assumes "GROQ_API_KEY e = Some k" "k \<noteq> []" "read_completion outcome = Inr (choices, used)"
  shows "store (chat P e req outcome random reg)
         = (get_or_create reg (session_of req))
             (session_of req \<mapsto> truncate_history
                (history_of (get_or_create reg (session_of req)) (session_of req)
                 @ [user_turn req, \<lparr>role = Assistant, content = first_content choices\<rparr>]))"
  using assms by (simp add: chat_def Let_def user_turn_def session_of_def split: sum.splits)

lemma chat_store_cases:
  "store (chat P e req outcome random reg) = reg
   \<or> (\<exists>sid u. store (chat P e req outcome random reg)
         = (get_or_create reg sid)(sid \<mapsto> history_of (get_or_create reg sid) sid @ [u]))
   \<or> (\<exists>sid u a. store (chat P e req outcome random reg)
         = (get_or_create reg sid)(sid \<mapsto> truncate_history (history_of (get_or_create reg sid) sid @ [u, a])))"
proof (cases "GROQ_API_KEY e = None \<or> GROQ_API_KEY e = Some []")
  case True
  then show ?thesis by (simp add: chat_store_no_key)
next
  case False
  then obtain k where k: "GROQ_API_KEY e = Some k" "k \<noteq> []" by auto
  show ?thesis
  proof (cases "read_completion outcome")
    case (Inl err)
    from chat_store_failed[OF k Inl] show ?thesis by blast
  next
    case (Inr d)
    obtain choices used where "d = (choices, used)" by (cases d)
    with Inr chat_store_answered[OF k, of outcome choices used] show ?thesis by blast
  qed
qed

subsection \<open>The first turn\<close>

lemma chat_starts:
  assumes "starts_with_system reg"
  shows "starts_with_system (store (chat P e req outcome random reg))"
proof -
  have step: "starts_with_system ((get_or_create reg sid)(sid \<mapsto> h))"
    if "h \<noteq> []" "h ! 0 = system_turn" for sid h
    using starts_with_system_update[OF get_or_create_starts[OF assms] that] .
  from chat_store_cases[of P e req outcome random reg] show ?thesis
  proof (elim disjE exE)
    assume "store (chat P e req outcome random reg) = reg"
    then show ?thesis using assms by simp
  next
    fix sid u
    assume s: "store (chat P e req outcome random reg)
         = (get_or_create reg sid)(sid \<mapsto> history_of (get_or_create reg sid) sid @ [u])"
    show ?thesis unfolding s
      using history_of_created_first[OF assms, of sid] by (intro step) (auto simp: nth_append)
  next
    fix sid u a
    assume s: "store (chat P e req outcome random reg)
         = (get_or_create reg sid)(sid \<mapsto> truncate_history (history_of (get_or_create reg sid) sid @ [u, a]))"
    have "history_of (get_or_create reg sid) sid @ [u, a] \<noteq> []" by simp
    from truncate_history_first[OF this] history_of_created_first[OF assms, of sid]
    show ?thesis unfolding s by (intro step) (auto simp: nth_append)
  qed
qed

lemma reset_starts: "starts_with_system reg \<Longrightarrow> starts_with_system (reset jb reg)"
  by (auto simp: starts_with_system_def reset_def Let_def)

lemma step_starts: "starts_with_system reg \<Longrightarrow> starts_with_system (step P reg ev)"
  by (cases ev) (simp_all add: chat_starts reset_starts)

lemma foldl_step_starts:
  "starts_with_system reg \<Longrightarrow> starts_with_system (foldl (step P) reg evs)"
  by (induction evs arbitrary: reg) (simp_all add: step_starts)

text \<open>
  C2. After any sequence of chat and reset requests, whatever the provider answered,
  every transcript of the registry has the fixed system instruction as its first turn.
  A transcript is created with it, and the appends and the truncation of a request keep
  it; a reset removes the whole transcript.
\<close>

theorem first_turn_is_system:
  assumes "run JSON_parse events sid = Some h"
  shows "h \<noteq> [] \<and> h ! 0 = \<lparr>role = System, content = INTERVIEWER_SYSTEM_PROMPT\<rparr>"
proof -
  have "starts_with_system Map.empty" by (simp add: starts_with_system_def)
  then have "starts_with_system (run JSON_parse events)"
    unfolding run_def by (rule foldl_step_starts)
  with assms show ?thesis by (simp add: starts_with_system_def system_turn_def)
qed

subsection \<open>Alternation of the turns\<close>

lemma alternates_append_pair:
  assumes "alternates r xs" "even (length xs)" "r = User \<or> r = Assistant"
    "alternates r [u, a]"
  shows "alternates r (xs @ [u, a])"
  using assms
proof (induction xs arbitrary: r rule: induct_list012)
  case 1 then show ?case by simp
next
  case (2 x) then show ?case by simp
next
  case (3 x y zs)
  from "3.prems" have "alternates r zs" "even (length zs)" by auto
  from "3.IH"(1)[OF this "3.prems"(3,4)] "3.prems"(1,3) show ?case by auto
qed

lemma alternates_drop_even:
  assumes "alternates r xs" "even n" "r = User \<or> r = Assistant"
  shows "alternates r (drop n xs)"
  using assms
proof (induction xs arbitrary: n rule: induct_list012)
  case 1 then show ?case by simp
next
  case (2 x)
  then show ?case by (cases n) auto
next
  case (3 x y zs)
  show ?case
  proof (cases n)
    case 0 with "3.prems" show ?thesis by simp
  next
    case (Suc m)
    with "3.prems"(2) obtain j where j: "n = Suc (Suc j)" "even j" by (cases m) auto
    from "3.prems"(1,3) have "alternates r zs" by auto
    from "3.IH"(1)[OF this j(2) "3.prems"(3)] show ?thesis by (simp add: j)
  qed
qed

lemma tl_truncate_history:
  assumes "h \<noteq> []"
  shows "tl (truncate_history h) = drop (length (tl h) - 20) (tl h)"
proof (cases h)
  case Nil with assms show ?thesis by simp
next
  case (Cons x t)
  show ?thesis
  proof (cases "length h > 21")
    case True
    then have "Suc (length t) - 20 = Suc (length t - 20)" using Cons by simp
    then show ?thesis using True Cons by (simp add: truncate_history_def)
  next
    case False
    then show ?thesis using Cons by (simp add: truncate_history_def)
  qed
qed

lemma even_minus_20: "even (n::nat) \<Longrightarrow> even (n - 20)"
  by simp

lemma length_truncate_history:
  "length (truncate_history h) = (if length h > 21 then 21 else length h)"
  by (simp add: truncate_history_def)

lemma history_of_created_alternating:
  assumes "well_alternating reg"
  shows "alternates User (tl (history_of (get_or_create reg sid) sid))
         \<and> odd (length (history_of (get_or_create reg sid) sid))"
  using assms by (auto simp: well_alternating_def get_or_create_def history_of_def)

lemma well_alternating_update:
  "well_alternating reg \<Longrightarrow> alternates User (tl h) \<Longrightarrow> odd (length h)
   \<Longrightarrow> well_alternating ((get_or_create reg sid')(sid \<mapsto> h))"
  by (auto simp: well_alternating_def get_or_create_def)

lemma chat_alternating:
  assumes inv: "well_alternating reg" and ok: "no_failed_call (Chat e req outcome random)"
  shows "well_alternating (store (chat P e req outcome random reg))"
proof (cases "GROQ_API_KEY e = None \<or> GROQ_API_KEY e = Some []")
  case True
  then show ?thesis using inv by (simp add: chat_store_no_key)
next
  case False
  then obtain k where k: "GROQ_API_KEY e = Some k" "k \<noteq> []" by auto
  with ok obtain choices used where d: "read_completion outcome = Inr (choices, used)"
    by (auto split: sum.splits)
  define h where "h = history_of (get_or_create reg (session_of req)) (session_of req)"
  define h2 where "h2 = h @ [user_turn req, \<lparr>role = Assistant, content = first_content choices\<rparr>]"
  from history_of_created_alternating[OF inv, of "session_of req"]
  have h0: "alternates User (tl h)" "odd (length h)" by (simp_all add: h_def)
  then have h: "h \<noteq> []" "alternates User (tl h)" "even (length (tl h))" by auto
  have tl2: "tl h2 = tl h @ [user_turn req, \<lparr>role = Assistant, content = first_content choices\<rparr>]"
    using h(1) by (simp add: h2_def)
  have alt2: "alternates User (tl h2)"
    unfolding tl2 using h(2,3) by (intro alternates_append_pair) (simp_all add: user_turn_def)
  have ev2: "even (length (tl h2))" unfolding tl2 using h(3) by simp
  have ne2: "h2 \<noteq> []" by (simp add: h2_def)
  have t: "tl (truncate_history h2) = drop (length (tl h2) - 20) (tl h2)"
    using tl_truncate_history[OF ne2] .
  have "alternates User (drop (length (tl h2) - 20) (tl h2))"
    using alt2 even_minus_20[OF ev2] by (rule alternates_drop_even) simp
  then have "alternates User (tl (truncate_history h2))"
    by (simp only: t)
  moreover have "odd (length h2)" using h0(2) by (simp add: h2_def)
  then have "odd (length (truncate_history h2))" by (simp add: length_truncate_history)
  ultimately have "well_alternating ((get_or_create reg (session_of req))(session_of req \<mapsto> truncate_history h2))"
    using inv by (intro well_alternating_update)
  then show ?thesis
    unfolding chat_store_answered[OF k d] h2_def h_def by simp
qed

lemma reset_alternating: "well_alternating reg \<Longrightarrow> well_alternating (reset jb reg)"
  by (auto simp: well_alternating_def reset_def)

lemma foldl_step_alternating:
  "well_alternating reg \<Longrightarrow> \<forall>ev \<in> set evs. no_failed_call ev
   \<Longrightarrow> well_alternating (foldl (step P) reg evs)"
proof (induction evs arbitrary: reg)
  case Nil then show ?case by simp
next
  case (Cons ev evs)
  have "well_alternating (step P reg ev)"
  proof (cases ev)
    case (Chat e req outcome random)
    with Cons.prems show ?thesis by (simp add: chat_alternating)
  next
    case (Reset jb)
    with Cons.prems show ?thesis by (simp add: reset_alternating)
  qed
  with Cons show ?case by simp
qed

text \<open>
  C3, as amended. After any sequence of chat and reset requests in which no provider call
  fails, the turns of every transcript after the system turn alternate between user
  and assistant, starting with user.
\<close>

theorem turns_alternate_when_provider_answers:
  assumes "\<forall>ev \<in> set events. no_failed_call ev"
    and "run JSON_parse events sid = Some h"
  shows "alternates User (tl h)"
proof -
  have "well_alternating Map.empty" by (simp add: well_alternating_def)
  from foldl_step_alternating[OF this assms(1)]
  have "well_alternating (run JSON_parse events)" by (simp add: run_def)
  with assms(2) show ?thesis by (simp add: well_alternating_def)
qed

subsection \<open>The length of a transcript\<close>

lemma history_of_update: "history_of (reg(sid \<mapsto> h)) sid = h"
  by (simp add: history_of_def)

lemma get_or_create_idem: "get_or_create (reg(sid \<mapsto> h)) sid = reg(sid \<mapsto> h)"
  by (simp add: get_or_create_def)

lemma chat_failed_history:
  assumes "GROQ_API_KEY e = Some k" "k \<noteq> []" "read_completion outcome = Inl err"
  shows "history_of (get_or_create (store (chat P e req outcome random reg)) (session_of req)) (session_of req)
         = history_of (get_or_create reg (session_of req)) (session_of req) @ [user_turn req]"
  unfolding chat_store_failed[OF assms] by (simp add: get_or_create_idem history_of_update)

lemma chat_answered_history:
  assumes "GROQ_API_KEY e = Some k" "k \<noteq> []" "read_completion outcome = Inr (choices, used)"
  shows "history_of (get_or_create (store (chat P e req outcome random reg)) (session_of req)) (session_of req)
         = truncate_history (history_of (get_or_create reg (session_of req)) (session_of req)
             @ [user_turn req, \<lparr>role = Assistant, content = first_content choices\<rparr>])"
  unfolding chat_store_answered[OF assms] by (simp add: get_or_create_idem history_of_update)

lemma failed_chats_length:
  assumes "GROQ_API_KEY e = Some k" "k \<noteq> []" "read_completion outcome = Inl err"
  shows "length (history_of (get_or_create (foldl (step P) reg (replicate n (Chat e req outcome random))) (session_of req)) (session_of req))
         = length (history_of (get_or_create reg (session_of req)) (session_of req)) + n"
proof (induction n arbitrary: reg)
  case 0 show ?case by simp
next
  case (Suc n)
  show ?case
    by (simp add: Suc.IH chat_failed_history[OF assms])
qed

lemma answered_chats_length:
  assumes "GROQ_API_KEY e = Some k" "k \<noteq> []" "read_completion outcome = Inr (choices, used)"
  shows "length (history_of (get_or_create (foldl (step P) reg (replicate n (Chat e req outcome random))) (session_of req)) (session_of req))
         = (if n = 0 then length (history_of (get_or_create reg (session_of req)) (session_of req))
            else min 21 (length (history_of (get_or_create reg (session_of req)) (session_of req)) + 2 * n))"
proof (induction n arbitrary: reg)
  case 0 show ?case by simp
next
  case (Suc n)
  show ?case
    by (simp add: Suc.IH chat_answered_history[OF assms] length_truncate_history)
qed

lemma history_of_get_or_create_nonempty:
  "reg sid = Some h \<Longrightarrow> history_of (get_or_create reg sid) sid = history_of reg sid"
  by (simp add: get_or_create_def)

lemma chat_defines_session:
  assumes "GROQ_API_KEY e = Some k" "k \<noteq> []"
  shows "store (chat P e req outcome random reg) (session_of req) \<noteq> None"
proof (cases "read_completion outcome")
  case (Inl err)
  show ?thesis unfolding chat_store_failed[OF assms Inl] by simp
next
  case (Inr d)
  obtain choices used where "d = (choices, used)" by (cases d)
  with Inr have d: "read_completion outcome = Inr (choices, used)" by simp
  show ?thesis unfolding chat_store_answered[OF assms d] by simp
qed

text \<open>A request that the provider answers leaves at most 21 turns.\<close>

lemma answered_chat_bound:
  assumes "GROQ_API_KEY e = Some k" "k \<noteq> []" "read_completion outcome = Inr (choices, used)"
  shows "length (history_of (store (chat P e req outcome random reg)) (session_of req)) \<le> 21"
  unfolding chat_store_answered[OF assms]
  by (simp add: history_of_update length_truncate_history)

lemma sample_key: "GROQ_API_KEY env_with_key = Some ''gsk_test''" "''gsk_test'' \<noteq> []"
  by (simp_all add: env_with_key_def)

lemma sample_session: "session_of say_hi = ''default''"
  by (simp add: session_of_def say_hi_def read_body_def session_id_def)

lemma sample_failure: "read_completion provider_503 = Inl (Groq_API_error 503)"
  by (simp add: read_completion_def provider_503_def ok_def)

lemma sample_answer:
  "read_completion (provider_says c) = Inr ([Some c], ''llama-3.3-70b-versatile'')"
  by (simp add: read_completion_def provider_says_def ok_def)

lemma history_of_created_empty: "history_of (get_or_create Map.empty sid) sid = [system_turn]"
  by (simp add: get_or_create_def history_of_def)

lemma history_of_run_replicate:
  assumes "GROQ_API_KEY e = Some k" "k \<noteq> []"
  shows "history_of (run P (replicate (Suc n) (Chat e req outcome random))) (session_of req)
         = history_of (get_or_create (run P (replicate (Suc n) (Chat e req outcome random))) (session_of req)) (session_of req)"
proof -
  have "replicate (Suc n) (Chat e req outcome random) = replicate n (Chat e req outcome random) @ [Chat e req outcome random]"
    by (simp add: replicate_append_same)
  then have "run P (replicate (Suc n) (Chat e req outcome random))
      = store (chat P e req outcome random (run P (replicate n (Chat e req outcome random))))"
    by (simp add: run_def)
  then have "run P (replicate (Suc n) (Chat e req outcome random)) (session_of req) \<noteq> None"
    using chat_defines_session[OF assms] by simp
  then show ?thesis by (auto simp: history_of_get_or_create_nonempty)
qed

text \<open>
  C1. The bound of 21 turns does not hold after a request whose provider call fails: the
  user turn is appended before the call, and the truncation is not reached. After 25
  chat calls on one session, each answered by the provider with status 503, the
  transcript has 26 turns.
\<close>

theorem failed_requests_exceed_bound:
  "length (history_of (run sample_parse (replicate 25 (Chat env_with_key say_hi provider_503 half))) ''default'') = 26"
proof -
  have "length (history_of (run sample_parse (replicate (Suc 24) (Chat env_with_key say_hi provider_503 half))) (session_of say_hi))
        = length (history_of (get_or_create Map.empty (session_of say_hi)) (session_of say_hi)) + Suc 24"
    unfolding history_of_run_replicate[OF sample_key]
    unfolding run_def by (rule failed_chats_length[OF sample_key sample_failure])
  then show ?thesis by (simp add: sample_session history_of_created_empty)
qed

text \<open>After 25 chat calls that the provider answers, the transcript has 21 turns.\<close>

lemma answered_requests_reach_bound:
  "length (history_of (run sample_parse (replicate 25 (Chat env_with_key say_hi (provider_says ''Good job!'') half))) ''default'') = 21"
proof -
  have "length (history_of (run sample_parse (replicate (Suc 24) (Chat env_with_key say_hi (provider_says ''Good job!'') half))) (session_of say_hi))
        = (if Suc 24 = 0 then length (history_of (get_or_create Map.empty (session_of say_hi)) (session_of say_hi))
            else min 21 (length (history_of (get_or_create Map.empty (session_of say_hi)) (session_of say_hi)) + 2 * Suc 24))"
    unfolding history_of_run_replicate[OF sample_key]
    unfolding run_def by (rule answered_chats_length[OF sample_key sample_answer])
  then show ?thesis by (simp add: sample_session history_of_created_empty)
qed

subsection \<open>Examples\<close>

lemma sample_user_turn: "user_turn say_hi = \<lparr>role = User, content = ''hi''\<rparr>"
  by (simp add: user_turn_def say_hi_def read_body_def user_content_def trim_def
      is_whitespace_def)

lemma run_answered_once:
  "run sample_parse [Chat env_with_key say_hi (provider_says ''Good job!'') half] ''default''
   = Some [system_turn, \<lparr>role = User, content = ''hi''\<rparr>, \<lparr>role = Assistant, content = ''Good job!''\<rparr>]"
  by (simp add: run_def chat_store_answered[OF sample_key sample_answer] sample_session
      history_of_created_empty sample_user_turn first_content_def truncate_history_def)

lemma run_failed_then_answered:
  "run sample_parse [Chat env_with_key say_hi provider_503 half,
                     Chat env_with_key say_hi (provider_says ''Good job!'') half] ''default''
   = Some [system_turn, \<lparr>role = User, content = ''hi''\<rparr>, \<lparr>role = User, content = ''hi''\<rparr>,
           \<lparr>role = Assistant, content = ''Good job!''\<rparr>]"
  by (simp add: run_def chat_store_answered[OF sample_key sample_answer]
      chat_store_failed[OF sample_key sample_failure] sample_session
      history_of_created_empty sample_user_turn first_content_def truncate_history_def
      get_or_create_idem history_of_update)

theorem first_turn_is_system_witness:
  "run sample_parse [Chat env_with_key say_hi provider_503 half,
                     Chat env_with_key say_hi (provider_says ''Good job!'') half] ''default''
   = Some [system_turn, \<lparr>role = User, content = ''hi''\<rparr>, \<lparr>role = User, content = ''hi''\<rparr>,
           \<lparr>role = Assistant, content = ''Good job!''\<rparr>]
   \<and> [system_turn, \<lparr>role = User, content = ''hi''\<rparr>, \<lparr>role = User, content = ''hi''\<rparr>,
           \<lparr>role = Assistant, content = ''Good job!''\<rparr>] ! 0
       = \<lparr>role = System, content = INTERVIEWER_SYSTEM_PROMPT\<rparr>"
  using first_turn_is_system[OF run_failed_then_answered] run_failed_then_answered
  by simp

theorem turns_alternate_when_provider_answers_witness:
  "list_all no_failed_call [Chat env_with_key say_hi (provider_says ''Good job!'') half]
   \<and> run sample_parse [Chat env_with_key say_hi (provider_says ''Good job!'') half] ''default''
       = Some [system_turn, \<lparr>role = User, content = ''hi''\<rparr>, \<lparr>role = Assistant, content = ''Good job!''\<rparr>]
   \<and> alternates User (tl [system_turn, \<lparr>role = User, content = ''hi''\<rparr>,
                            \<lparr>role = Assistant, content = ''Good job!''\<rparr>])"
proof -
  have a: "\<forall>ev \<in> set [Chat env_with_key say_hi (provider_says ''Good job!'') half]. no_failed_call ev"
    by (simp add: sample_answer)
  show ?thesis
    using turns_alternate_when_provider_answers[OF a run_answered_once] a run_answered_once
    by simp
qed

text \<open>The claim as first stated fails: a request whose provider call fails leaves its
  user turn in the transcript, and the next request appends a second user turn after it.\<close>

theorem failed_call_breaks_alternation_counterexample:
  "run sample_parse [Chat env_with_key say_hi provider_503 half,
                     Chat env_with_key say_hi (provider_says ''Good job!'') half] ''default''
   = Some [system_turn, \<lparr>role = User, content = ''hi''\<rparr>, \<lparr>role = User, content = ''hi''\<rparr>,
           \<lparr>role = Assistant, content = ''Good job!''\<rparr>]
   \<and> \<not> alternates User (tl [system_turn, \<lparr>role = User, content = ''hi''\<rparr>,
                              \<lparr>role = User, content = ''hi''\<rparr>,
                              \<lparr>role = Assistant, content = ''Good job!''\<rparr>])"
  using run_failed_then_answered by simp

section \<open>The user turn\<close>

lemma trim_empty_iff: "trim s = [] \<longleftrightarrow> (\<forall>c \<in> set s. is_whitespace c)"
proof -
  have "trim s = [] \<longleftrightarrow> (\<forall>c \<in> set (dropWhile is_whitespace s). is_whitespace c)"
    by (simp add: trim_def dropWhile_eq_Nil_conv)
  also have "\<dots> \<longleftrightarrow> dropWhile is_whitespace s = []"
  proof
    assume a: "\<forall>c \<in> set (dropWhile is_whitespace s). is_whitespace c"
    show "dropWhile is_whitespace s = []"
    proof (rule ccontr)
      assume n: "dropWhile is_whitespace s \<noteq> []"
      then have "\<not> is_whitespace (hd (dropWhile is_whitespace s))" by (rule hd_dropWhile)
      moreover have "hd (dropWhile is_whitespace s) \<in> set (dropWhile is_whitespace s)"
        using n by simp
      ultimately show False using a by blast
    qed
  next
    assume "dropWhile is_whitespace s = []"
    then show "\<forall>c \<in> set (dropWhile is_whitespace s). is_whitespace c"
      by (simp only: list.set ball_empty)
  qed
  also have "\<dots> \<longleftrightarrow> (\<forall>c \<in> set s. is_whitespace c)"
    by (simp add: dropWhile_eq_Nil_conv)
  finally show ?thesis .
qed

lemma user_content_cases:
  "user_content m =
     (case m of
        None \<Rightarrow> greeting
      | Some t \<Rightarrow> if \<forall>c \<in> set t. is_whitespace c then greeting else t)"
  by (auto simp: user_content_def trim_empty_iff split: option.splits)

lemma chat_calls:
  assumes "GROQ_API_KEY e = Some k" "k \<noteq> []"
  shows "calls (chat P e req outcome random reg) =
           [\<lparr>authorization = ''Bearer '' @ k,
             sent_model = select_model (query_model req) (INTERVIEW_MODEL e),
             sent_messages = history_of (get_or_create reg (session_of req)) (session_of req) @ [user_turn req],
             temperature = 0.7,
             max_tokens = 300,
             response_format = ''json_object''\<rparr>]"
  using assms
  by (simp add: chat_def Let_def session_of_def user_turn_def split: sum.splits prod.splits)

text \<open>
  C4, as amended. A chat request (with the API key configured) appends one user turn to
  the transcript of its session: the transcript sent to the provider, and the one stored
  when the call fails, is the old transcript with that turn; when the provider answers,
  the assistant turn follows it and the truncation is applied. The content of the user
  turn is the request's message verbatim when the message has a character that is not
  whitespace, and is the canned greeting when the message is absent, empty or made of
  whitespace only.
\<close>

theorem user_turn_is_message_or_greeting:
  assumes "GROQ_API_KEY e = Some k" and "k \<noteq> []"
    and "read_body (json_body req) = \<lparr>message = m, sessionId = s\<rparr>"
    and \<open>u = \<lparr>role = User,
               content = (case m of
                  None \<Rightarrow> ''Hi, I'd like to start a mock interview session.''
                | Some t \<Rightarrow> if \<forall>c \<in> set t. is_whitespace c
                           then ''Hi, I'd like to start a mock interview session.''
                           else t)\<rparr>\<close>
    and "h = history_of (get_or_create reg (session_of req)) (session_of req)"
  shows "map sent_messages (calls (chat JSON_parse e req outcome random reg)) = [h @ [u]]
         \<and> history_of (store (chat JSON_parse e req outcome random reg)) (session_of req) =
             (case read_completion outcome of
                Inl err \<Rightarrow> h @ [u]
              | Inr (choices, used) \<Rightarrow>
                  truncate_history (h @ [u, \<lparr>role = Assistant, content = first_content choices\<rparr>]))"
proof -
  have u: "user_turn req = u"
    by (simp add: user_turn_def assms(3,4) user_content_cases greeting_def split: option.splits)
  have "map sent_messages (calls (chat JSON_parse e req outcome random reg)) = [h @ [u]]"
    unfolding chat_calls[OF assms(1,2)] by (simp add: u assms(5))
  moreover have "history_of (store (chat JSON_parse e req outcome random reg)) (session_of req) =
             (case read_completion outcome of
                Inl err \<Rightarrow> h @ [u]
              | Inr (choices, used) \<Rightarrow>
                  truncate_history (h @ [u, \<lparr>role = Assistant, content = first_content choices\<rparr>]))"
  proof (cases "read_completion outcome")
    case (Inl err)
    show ?thesis
      unfolding chat_store_failed[OF assms(1,2) Inl] by (simp add: Inl history_of_update u assms(5))
  next
    case (Inr d)
    obtain choices used where "d = (choices, used)" by (cases d)
    with Inr have d: "read_completion outcome = Inr (choices, used)" by simp
    show ?thesis
      unfolding chat_store_answered[OF assms(1,2) d] by (simp add: d history_of_update u assms(5))
  qed
  ultimately show ?thesis by (rule conjI)
qed

theorem user_turn_is_message_or_greeting_witness:
  \<open>GROQ_API_KEY env_with_key = Some ''gsk_test'' \<and> ''gsk_test'' \<noteq> []
   \<and> read_body (json_body say_hi) = \<lparr>message = Some ''hi'', sessionId = None\<rparr>
   \<and> map sent_messages (calls (chat sample_parse env_with_key say_hi (provider_says ''Good job!'') half Map.empty)) =
       [system_turn, \<lparr>role = User, content = ''hi''\<rparr>] # []
   \<and> history_of (store (chat sample_parse env_with_key say_hi (provider_says ''Good job!'') half Map.empty)) ''default''
       = [system_turn, \<lparr>role = User, content = ''hi''\<rparr>, \<lparr>role = Assistant, content = ''Good job!''\<rparr>]\<close>
proof -
  have a: "GROQ_API_KEY env_with_key = Some ''gsk_test''" "''gsk_test'' \<noteq> []"
    by (simp_all add: env_with_key_def)
  have b: "read_body (json_body say_hi) = \<lparr>message = Some ''hi'', sessionId = None\<rparr>"
    by (simp add: say_hi_def read_body_def)
  have w: "\<not> (\<forall>c \<in> set ''hi''. is_whitespace c)" by (simp add: is_whitespace_def)
  have s: "history_of (get_or_create Map.empty (session_of say_hi)) (session_of say_hi) = [system_turn]"
    by (simp add: get_or_create_def history_of_def)
  show ?thesis
    using user_turn_is_message_or_greeting[OF a b refl refl, of sample_parse "provider_says ''Good job!''" half Map.empty]
      a b w s
    by (simp add: sample_answer sample_session first_content_def truncate_history_def)
qed

text \<open>The claim as first stated fails: a message of one space is supplied and not
  empty, and the user turn appended is the greeting, not the space.\<close>

theorem blank_message_counterexample:
  \<open>'' '' \<noteq> []
   \<and> history_of (store (chat sample_parse env_with_key
          \<lparr>json_body = Some \<lparr>message = Some '' '', sessionId = None\<rparr>, query_model = None\<rparr>
          provider_503 half Map.empty)) ''default''
       = [system_turn, \<lparr>role = User, content = ''Hi, I'd like to start a mock interview session.''\<rparr>]
   \<and> ''Hi, I'd like to start a mock interview session.'' \<noteq> '' ''\<close>
  by (simp add: chat_def Let_def env_with_key_def read_body_def session_id_def get_or_create_def
      history_of_def user_content_def trim_def is_whitespace_def greeting_def
      read_completion_def provider_503_def ok_def)

section \<open>The model sent to the provider\<close>

text \<open>
  C6, as amended. The model sent to the provider is the query parameter \<open>model\<close> when it
  is present and not empty; otherwise \<open>INTERVIEW_MODEL\<close> when it is present and not
  empty; otherwise the default \<open>llama-3.3-70b-versatile\<close>.
\<close>

theorem model_precedence:
  assumes "GROQ_API_KEY e = Some k" and "k \<noteq> []"
  shows "map sent_model (calls (chat JSON_parse e req outcome random reg)) =
           [case query_model req of
              Some q \<Rightarrow>
                if q \<noteq> [] then q
                else (case INTERVIEW_MODEL e of
                        Some m \<Rightarrow> if m \<noteq> [] then m else ''llama-3.3-70b-versatile''
                      | None \<Rightarrow> ''llama-3.3-70b-versatile'')
            | None \<Rightarrow>
                (case INTERVIEW_MODEL e of
                   Some m \<Rightarrow> if m \<noteq> [] then m else ''llama-3.3-70b-versatile''
                 | None \<Rightarrow> ''llama-3.3-70b-versatile'')]"
  unfolding chat_calls[OF assms]
  by (simp add: select_model_def DEFAULT_MODEL_def split: option.splits)

theorem model_precedence_witness:
  "GROQ_API_KEY \<lparr>GROQ_API_KEY = Some ''gsk_test'', INTERVIEW_MODEL = Some ''gemma2-9b-it''\<rparr> = Some ''gsk_test''
   \<and> ''gsk_test'' \<noteq> []
   \<and> map sent_model (calls (chat sample_parse
         \<lparr>GROQ_API_KEY = Some ''gsk_test'', INTERVIEW_MODEL = Some ''gemma2-9b-it''\<rparr>
         \<lparr>json_body = None, query_model = Some ''llama-3.1-8b-instant''\<rparr>
         provider_503 half Map.empty))
       = [''llama-3.1-8b-instant'']
   \<and> map sent_model (calls (chat sample_parse
         \<lparr>GROQ_API_KEY = Some ''gsk_test'', INTERVIEW_MODEL = Some ''gemma2-9b-it''\<rparr>
         \<lparr>json_body = None, query_model = None\<rparr>
         provider_503 half Map.empty))
       = [''gemma2-9b-it'']
   \<and> map sent_model (calls (chat sample_parse env_with_key say_hi provider_503 half Map.empty))
       = [''llama-3.3-70b-versatile'']"
proof -
  have a: "GROQ_API_KEY \<lparr>GROQ_API_KEY = Some ''gsk_test'', INTERVIEW_MODEL = Some ''gemma2-9b-it''\<rparr> = Some ''gsk_test''"
    and b: "''gsk_test'' \<noteq> []" by simp_all
  have c: "GROQ_API_KEY env_with_key = Some ''gsk_test''" by (simp add: env_with_key_def)
  show ?thesis
    using model_precedence[OF a b, of sample_parse "\<lparr>json_body = None, query_model = Some ''llama-3.1-8b-instant''\<rparr>" provider_503 half Map.empty]
      model_precedence[OF a b, of sample_parse "\<lparr>json_body = None, query_model = None\<rparr>" provider_503 half Map.empty]
      model_precedence[OF c b, of sample_parse say_hi provider_503 half Map.empty]
    by (simp add: env_with_key_def say_hi_def)
qed

text \<open>The claim as first stated fails: with the query parameter present and empty
  (\<open>?model=\<close>) the configured model is sent, not the query parameter.\<close>

theorem empty_query_model_counterexample:
  "query_model \<lparr>json_body = None, query_model = Some []\<rparr> = Some []
   \<and> map sent_model (calls (chat sample_parse
         \<lparr>GROQ_API_KEY = Some ''gsk_test'', INTERVIEW_MODEL = Some ''gemma2-9b-it''\<rparr>
         \<lparr>json_body = None, query_model = Some []\<rparr>
         provider_503 half Map.empty))
       = [''gemma2-9b-it'']
   \<and> ''gemma2-9b-it'' \<noteq> []"
  by (simp add: chat_def Let_def select_model_def read_completion_def provider_503_def ok_def)

section \<open>Degraded and failed requests\<close>

text \<open>
  C7. A chat request made while the API key is absent (or empty) is answered with
  status 200 and no \<open>error\<close> field; its single message explains the misconfiguration and
  has the expression \<open>sad\<close> and the animation \<open>Idle\<close>.
\<close>

theorem no_credential_reply:
  assumes "GROQ_API_KEY e = None \<or> GROQ_API_KEY e = Some []"
  shows "reply (chat JSON_parse e req outcome random reg) =
           \<lparr>status = 200,
            messages = [\<lparr>msg_text = ''AI interview is not configured. Please add GROQ_API_KEY to your environment variables.'',
                         audio = [],
                         lipsync = generateLipSync random ''AI interview is not configured.'',
                         facialExpression = JStr ''sad'',
                         animation = JStr ''Idle''\<rparr>],
            model_used = None,
            error = None\<rparr>"
  using assms by (auto simp: chat_def not_configured_def)

theorem no_credential_reply_witness:
  "(GROQ_API_KEY env_without_key = None \<or> GROQ_API_KEY env_without_key = Some [])
   \<and> status (reply (chat sample_parse env_without_key say_hi provider_503 half Map.empty)) = 200
   \<and> map facialExpression (messages (reply (chat sample_parse env_without_key say_hi provider_503 half Map.empty)))
       = [JStr ''sad'']
   \<and> map animation (messages (reply (chat sample_parse env_without_key say_hi provider_503 half Map.empty)))
       = [JStr ''Idle'']"
proof -
  have a: "GROQ_API_KEY env_without_key = None \<or> GROQ_API_KEY env_without_key = Some []"
    by (simp add: env_without_key_def)
  show ?thesis
    using no_credential_reply[OF a, of sample_parse say_hi provider_503 half Map.empty] a
    by simp
qed

text \<open>
  C10. A chat request made while the API key is absent (or empty) leaves the session
  registry as it was: no transcript is created or changed, whatever the request holds.
\<close>

theorem no_credential_registry_unchanged:
  assumes "GROQ_API_KEY e = None \<or> GROQ_API_KEY e = Some []"
  shows "store (chat JSON_parse e req outcome random reg) = reg"
  using assms by (rule chat_store_no_key)

theorem no_credential_registry_unchanged_witness:
  "(GROQ_API_KEY env_without_key = None \<or> GROQ_API_KEY env_without_key = Some [])
   \<and> store (chat sample_parse env_without_key say_hi provider_503 half Map.empty) = Map.empty
   \<and> store (chat sample_parse env_without_key say_hi provider_503 half [''default'' \<mapsto> [system_turn]])
       = [''default'' \<mapsto> [system_turn]]"
proof -
  have a: "GROQ_API_KEY env_without_key = None \<or> GROQ_API_KEY env_without_key = Some []"
    by (simp add: env_without_key_def)
  show ?thesis
    using no_credential_registry_unchanged[OF a, of sample_parse say_hi provider_503 half Map.empty]
      no_credential_registry_unchanged[OF a, of sample_parse say_hi provider_503 half "[''default'' \<mapsto> [system_turn]]"]
      a
    by simp
qed

text \<open>
  C8. When the provider answers with a status outside 200 to 299, the handler has sent
  exactly one request to the provider (no retry) and answers with status 500, an
  \<open>error\<close> field, and the canned message whose expression is \<open>sad\<close> and whose animation
  is \<open>Idle\<close>. The error is the one thrown for the status whenever the body of the
  provider's answer can be read.
\<close>

theorem provider_error_reply:
  assumes "GROQ_API_KEY e = Some k" and "k \<noteq> []"
    and "outcome = Responded r" and "\<not> ok r"
  shows \<open>status (reply (chat JSON_parse e req outcome random reg)) = 500
         \<and> error (reply (chat JSON_parse e req outcome random reg)) \<noteq> None
         \<and> (payload r \<noteq> Unreadable \<longrightarrow>
              error (reply (chat JSON_parse e req outcome random reg)) = Some (Groq_API_error (http_status r)))
         \<and> messages (reply (chat JSON_parse e req outcome random reg)) =
              [\<lparr>msg_text = ''I'm having trouble connecting right now. Please try again in a moment.'',
                audio = [],
                lipsync = generateLipSync random ''I'm having trouble connecting.'',
                facialExpression = JStr ''sad'',
                animation = JStr ''Idle''\<rparr>]
         \<and> length (calls (chat JSON_parse e req outcome random reg)) = 1\<close>
proof -
  from assms(3,4) obtain err where err: "read_completion outcome = Inl err"
    and v: "payload r \<noteq> Unreadable \<longrightarrow> err = Groq_API_error (http_status r)"
    by (cases "payload r") (simp_all add: read_completion_def)
  have "reply (chat JSON_parse e req outcome random reg) = trouble err random"
    using assms(1,2) err by (simp add: chat_def Let_def)
  then show ?thesis
    using v chat_calls[OF assms(1,2), of JSON_parse req outcome random reg]
    by (simp add: trouble_def)
qed

theorem provider_error_reply_witness:
  \<open>GROQ_API_KEY env_with_key = Some ''gsk_test'' \<and> ''gsk_test'' \<noteq> []
   \<and> provider_503 = Responded \<lparr>http_status = 503, payload = Not_JSON\<rparr>
   \<and> \<not> ok \<lparr>http_status = 503, payload = Not_JSON\<rparr>
   \<and> status (reply (chat sample_parse env_with_key say_hi provider_503 half Map.empty)) = 500
   \<and> error (reply (chat sample_parse env_with_key say_hi provider_503 half Map.empty))
       = Some (Groq_API_error 503)
   \<and> map animation (messages (reply (chat sample_parse env_with_key say_hi provider_503 half Map.empty)))
       = [JStr ''Idle'']
   \<and> length (calls (chat sample_parse env_with_key say_hi provider_503 half Map.empty)) = 1\<close>
proof -
  have a: "GROQ_API_KEY env_with_key = Some ''gsk_test''" and b: "''gsk_test'' \<noteq> []"
    by (simp_all add: env_with_key_def)
  have c: "provider_503 = Responded \<lparr>http_status = 503, payload = Not_JSON\<rparr>"
    by (simp add: provider_503_def)
  have d: "\<not> ok \<lparr>http_status = 503, payload = Not_JSON\<rparr>" by (simp add: ok_def)
  show ?thesis
    using provider_error_reply[OF a b c d, of sample_parse say_hi half Map.empty] a b c d
    by simp
qed

section \<open>Replies that are not JSON\<close>

text \<open>
  C9, as amended. When the provider's call succeeds and the content of its first choice
  is not JSON (\<open>JSON.parse\<close> throws on it), the request does not fail: the answer has status
  200 and no \<open>error\<close> field, and its message is the raw content as \<open>text\<close> with the
  expression \<open>default\<close> and the animation \<open>Talking_1\<close>.
\<close>

theorem unparseable_reply_is_wrapped:
  assumes "GROQ_API_KEY e = Some k" and "k \<noteq> []"
    and "outcome = Responded r" and "ok r" and "payload r = Completion choices used"
    and "JSON_parse (first_content choices) = None"
  shows "reply (chat JSON_parse e req outcome random reg) =
           \<lparr>status = 200,
            messages = [\<lparr>msg_text = first_content choices,
                         audio = [],
                         lipsync = generateLipSync random (first_content choices),
                         facialExpression = JStr ''default'',
                         animation = JStr ''Talking_1''\<rparr>],
            model_used = Some used,
            error = None\<rparr>"
proof -
  from assms(3-5) have d: "read_completion outcome = Inr (choices, used)"
    by (simp add: read_completion_def)
  have p: "parse_reply JSON_parse (first_content choices) = wrapped (first_content choices)"
    using assms(6) by (simp add: parse_reply_def)
  have "present (wrapped (first_content choices)) used random =
          Inr \<lparr>status = 200,
            messages = [\<lparr>msg_text = first_content choices,
                         audio = [],
                         lipsync = generateLipSync random (first_content choices),
                         facialExpression = JStr ''default'',
                         animation = JStr ''Talking_1''\<rparr>],
            model_used = Some used,
            error = None\<rparr>"
    by (simp add: present_def wrapped_def property_def)
  then show ?thesis
    using assms(1,2) d p by (simp add: chat_def Let_def)
qed

theorem unparseable_reply_is_wrapped_witness:
  "GROQ_API_KEY env_with_key = Some ''gsk_test'' \<and> ''gsk_test'' \<noteq> []
   \<and> provider_says ''Good job!''
       = Responded \<lparr>http_status = 200, payload = Completion [Some ''Good job!''] ''llama-3.3-70b-versatile''\<rparr>
   \<and> ok \<lparr>http_status = 200, payload = Completion [Some ''Good job!''] ''llama-3.3-70b-versatile''\<rparr>
   \<and> sample_parse (first_content [Some ''Good job!'']) = None
   \<and> reply (chat sample_parse env_with_key say_hi (provider_says ''Good job!'') half Map.empty) =
        \<lparr>status = 200,
         messages = [\<lparr>msg_text = ''Good job!'',
                      audio = [],
                      lipsync = generateLipSync half ''Good job!'',
                      facialExpression = JStr ''default'',
                      animation = JStr ''Talking_1''\<rparr>],
         model_used = Some ''llama-3.3-70b-versatile'',
         error = None\<rparr>"
proof -
  have a: "GROQ_API_KEY env_with_key = Some ''gsk_test''" and b: "''gsk_test'' \<noteq> []"
    by (simp_all add: env_with_key_def)
  have c: "provider_says ''Good job!''
       = Responded \<lparr>http_status = 200, payload = Completion [Some ''Good job!''] ''llama-3.3-70b-versatile''\<rparr>"
    by (simp add: provider_says_def)
  have d: "ok \<lparr>http_status = 200, payload = Completion [Some ''Good job!''] ''llama-3.3-70b-versatile''\<rparr>"
    by (simp add: ok_def)
  have f: "first_content [Some ''Good job!''] = ''Good job!''" by (simp add: first_content_def)
  have g: "sample_parse (first_content [Some ''Good job!'']) = None"
    unfolding f by (simp add: sample_parse_def)
  have p: "payload \<lparr>http_status = 200, payload = Completion [Some ''Good job!''] ''llama-3.3-70b-versatile''\<rparr>
             = Completion [Some ''Good job!''] ''llama-3.3-70b-versatile''"
    by simp
  show ?thesis
    using unparseable_reply_is_wrapped[where JSON_parse = sample_parse and req = say_hi
        and random = half and reg = Map.empty, OF a b c d p g]
      a b c d f g
    by simp
qed

text \<open>The claim as first stated fails: the content \<open>{"reply": "Good job!"}\<close> is JSON, but
  not an object of the expected shape; it is not wrapped, and the request fails with
  status 500 because the parsed object has no \<open>text\<close>.\<close>

theorem wrong_shape_reply_counterexample:
  \<open>\<not> expected_reply (sample_parse ''{"reply": "Good job!"}'')
   \<and> status (reply (chat sample_parse env_with_key say_hi
          (provider_says ''{"reply": "Good job!"}'') half Map.empty)) = 500
   \<and> error (reply (chat sample_parse env_with_key say_hi
          (provider_says ''{"reply": "Good job!"}'') half Map.empty)) = Some Type_error\<close>
  by (simp add: expected_reply_def sample_parse_def chat_def Let_def env_with_key_def
      read_completion_def provider_says_def ok_def first_content_def parse_reply_def
      present_def property_def trouble_def)

end
